theory Spec2Isabelle
  imports Main "HOL-Library.Word"
begin

section \<open>Cache dump manager (core/src/cache/dumper.cpp)\<close>

text \<open>
  The dump manager keeps snapshots of a cache as files of one directory. A file name
  carries the update time of the snapshot and the format version of the cache. This
  theory embeds the functions of \<^verbatim>\<open>dumper.cpp\<close> and the parts of the
  surrounding framework they call, and proves the properties of the specification
  about them.

  Format versions are \<^verbatim>\<open>uint64_t\<close>. Instants and durations are signed
  integers of 64 bits, see below.
\<close>

subsection \<open>The integers of the chrono types\<close>

text \<open>
  A \<^verbatim>\<open>TimePoint\<close> counts microseconds since the epoch, a
  \<^verbatim>\<open>system_clock::time_point\<close> nanoseconds and a
  \<^verbatim>\<open>std::chrono::milliseconds\<close> milliseconds, each in a signed integer of 64
  bits. An instant or a duration is here an \<open>int\<close>. Where the source converts between
  the units or subtracts, it computes on the 64 bits, and the result is the one of two's
  complement arithmetic: \<open>wrap64\<close> of the exact result.
\<close>

definition wrap64 :: "int \<Rightarrow> int" where
  "wrap64 x = (x + 2 ^ 63) mod 2 ^ 64 - 2 ^ 63"

subsection \<open>Decimal text\<close>

definition digit_char :: "nat \<Rightarrow> char" where
  "digit_char n = ''0123456789'' ! (n mod 10)"

definition is_digit :: "char \<Rightarrow> bool" where
  "is_digit c = (48 \<le> (of_char c :: nat) \<and> (of_char c :: nat) \<le> 57)"

definition digit_val :: "char \<Rightarrow> nat" where
  "digit_val c = of_char c - 48"

text \<open>\<^verbatim>\<open>{}\<close> of fmt on an unsigned integer: decimal, no leading zeros, \<^verbatim>\<open>0\<close> for zero.\<close>

fun dec :: "nat \<Rightarrow> string" where
  "dec n = (if n < 10 then [digit_char n] else dec (n div 10) @ [digit_char (n mod 10)])"

declare dec.simps [simp del]

definition num :: "string \<Rightarrow> nat" where
  "num s = foldl (\<lambda>a c. 10 * a + digit_val c) 0 s"

definition pad :: "nat \<Rightarrow> string \<Rightarrow> string" where
  "pad k s = replicate (k - length s) CHR ''0'' @ s"

subsection \<open>Exceptions\<close>

text \<open>
  \<^verbatim>\<open>filesystem_error\<close> is \<^verbatim>\<open>boost::filesystem::filesystem_error\<close>;
  \<^verbatim>\<open>std_exception\<close> stands for every other exception derived from
  \<^verbatim>\<open>std::exception\<close>. A handler for \<^verbatim>\<open>std::exception\<close> catches both, a
  handler for \<^verbatim>\<open>filesystem_error\<close> only the first.
\<close>

datatype exn = filesystem_error | std_exception

subsection \<open>Calendar and the date format of file names\<close>

text \<open>
  Modelled from the spec: \<^verbatim>\<open>utils::datetime::Timestring\<close>,
  \<^verbatim>\<open>utils::datetime::Stringtime\<close> (utils/datetime.hpp),
  \<^verbatim>\<open>utils::FromString\<close> (utils/from_string.hpp) and the constant
  \<^verbatim>\<open>kDumpFilenameDateFormat\<close> (cache/dumper.hpp) are not part of the sources at
  hand. The specification fixes the format as \<^verbatim>\<open>YYYY-MM-DDTHH:MM:SS.uuuuuu\<close> in UTC
  with six digits of fractional seconds, and the version as an unsigned integer.
  The calendar is the proleptic Gregorian one, with years counted from the first of
  March so that the leap day ends its year: \<open>year_start y\<close> is the number of days from
  0000-03-01 to the first of March of year \<open>y\<close>.
\<close>

definition year_start :: "int \<Rightarrow> int" where
  "year_start y = 365 * y + y div 4 - y div 100 + y div 400"

definition days_from_civil :: "int \<Rightarrow> int \<Rightarrow> int \<Rightarrow> int" where
  "days_from_civil y m d =
     (let y' = (if m \<le> 2 then y - 1 else y);
          mp = (if m > 2 then m - 3 else m + 9)
      in year_start y' + (153 * mp + 2) div 5 + d - 1 - 719468)"

text \<open>
  The year, counted from the first of March, that holds day \<open>z\<close> of the count from
  0000-03-01: an estimate from the mean length of a year, corrected by one where needed.
\<close>

definition march_year :: "int \<Rightarrow> int" where
  "march_year z =
     (let y0 = (400 * z) div 146097
      in if year_start (y0 + 1) \<le> z then y0 + 1 else y0)"

text \<open>Month and day of the month of the day \<open>doy\<close> of a year that starts in March.\<close>

definition month_day :: "int \<Rightarrow> int \<times> int" where
  "month_day doy =
     (let mp = (5 * doy + 2) div 153
      in (if mp < 10 then mp + 3 else mp - 9, doy - (153 * mp + 2) div 5 + 1))"

definition civil_from_days :: "int \<Rightarrow> int \<times> int \<times> int" where
  "civil_from_days z =
     (let z' = z + 719468;
          y' = march_year z'
      in case month_day (z' - year_start y') of
           (m, d) \<Rightarrow> (if m \<le> 2 then y' + 1 else y', m, d))"

definition year_text :: "int \<Rightarrow> string" where
  "year_text y = (if y < 0 then CHR ''-'' # pad 4 (dec (nat (- y))) else pad 4 (dec (nat y)))"

text \<open>
  Modelled from the spec: \<open>Timestring ns\<close> is \<^verbatim>\<open>Timestring(tp, "UTC", kDumpFilenameDateFormat)\<close>
  for the \<^verbatim>\<open>system_clock::time_point\<close> of \<open>ns\<close> nanoseconds after the epoch;
  digits beyond the microsecond are cut.
\<close>

definition Timestring :: "int \<Rightarrow> string" where
  "Timestring ns =
     (let us = ns div 1000;
          secs = us div 1000000;
          frac = us mod 1000000;
          days = secs div 86400;
          sod = secs mod 86400
      in case civil_from_days days of (y, m, d) \<Rightarrow>
           year_text y @ ''-'' @ pad 2 (dec (nat m)) @ ''-'' @ pad 2 (dec (nat d)) @ ''T''
           @ pad 2 (dec (nat (sod div 3600))) @ '':'' @ pad 2 (dec (nat (sod mod 3600 div 60)))
           @ '':'' @ pad 2 (dec (nat (sod mod 60))) @ ''.'' @ pad 6 (dec (nat frac)))"

text \<open>
  The pieces of the file name regex of \<^verbatim>\<open>GenerateFilenameRegex\<close>:
  \<^verbatim>\<open>\d{n}\<close> and a literal. \<open>scan\<close> matches a sequence of pieces at the start of
  a string and returns the numbers read and the rest of the string.
\<close>

datatype piece = Digits nat | Lit string

fun scan :: "piece list \<Rightarrow> string \<Rightarrow> (nat list \<times> string) option" where
  "scan [] s = Some ([], s)"
| "scan (Lit l # ps) s =
     (if take (length l) s = l then scan ps (drop (length l) s) else None)"
| "scan (Digits n # ps) s =
     (if length (take n s) = n \<and> list_all is_digit (take n s)
      then (case scan ps (drop n s) of None \<Rightarrow> None
            | Some (vs, r) \<Rightarrow> Some (num (take n s) # vs, r))
      else None)"

text \<open>\<^verbatim>\<open>\d{4}-\d{2}-\d{2}T\d{2}:\d{2}:\d{2}\.\d{6}\<close>\<close>

definition date_pieces :: "piece list" where
  "date_pieces = [Digits 4, Lit ''-'', Digits 2, Lit ''-'', Digits 2, Lit ''T'',
                  Digits 2, Lit '':'', Digits 2, Lit '':'', Digits 2, Lit ''.'', Digits 6]"

text \<open>
  Modelled from the spec: \<open>Stringtime s\<close> is
  \<^verbatim>\<open>Stringtime(s, "UTC", kDumpFilenameDateFormat)\<close>, a
  \<^verbatim>\<open>system_clock::time_point\<close>: nanoseconds in 64 bits. A field out of its
  range, or a day that the calendar would carry into the next month, is a decoding
  failure. The date is converted from seconds to nanoseconds on the 64 bits, so that
  the result is an integer of 64 bits for every name; of the instant of a name dated
  outside of these 64 bits, from 1677-09-21 to 2262-04-11, the properties below use
  nothing else.
\<close>

definition civil_time :: "nat \<Rightarrow> nat \<Rightarrow> nat \<Rightarrow> nat \<Rightarrow> nat \<Rightarrow> nat \<Rightarrow> nat \<Rightarrow> exn + int" where
  "civil_time y m d h mi sec us =
     (if 1 \<le> m \<and> m \<le> 12 \<and> 1 \<le> d \<and> d \<le> 31 \<and> h < 24 \<and> mi < 60 \<and> sec < 60 \<and>
         civil_from_days (days_from_civil (int y) (int m) (int d)) = (int y, int m, int d)
      then Inr (wrap64 ((((days_from_civil (int y) (int m) (int d) * 86400
                   + int h * 3600 + int mi * 60 + int sec) * 1000000) + int us) * 1000))
      else Inl std_exception)"

definition Stringtime :: "string \<Rightarrow> exn + int" where
  "Stringtime s =
     (case scan date_pieces s of None \<Rightarrow> Inl std_exception
      | Some (vs, r) \<Rightarrow>
          (if length vs = 7 \<and> r = []
           then civil_time (vs ! 0) (vs ! 1) (vs ! 2) (vs ! 3) (vs ! 4) (vs ! 5) (vs ! 6)
           else Inl std_exception))"

text \<open>Modelled from the spec: \<^verbatim>\<open>utils::FromString<uint64_t>\<close> on a string of digits.\<close>

definition FromString :: "string \<Rightarrow> exn + 64 word" where
  "FromString s =
     (if s \<noteq> [] \<and> list_all is_digit s \<and> num s < 2 ^ 64
      then Inr (word_of_nat (num s)) else Inl std_exception)"

subsection \<open>Configuration and dump names\<close>

record CacheConfigStatic =
  dump_directory :: string
  dump_format_version :: "64 word"
  max_dump_age :: "int option"
  max_dump_count :: nat

record DumpContents =
  contents :: string
  update_time :: int

record ParsedDumpName =
  filename :: string
  update_time :: int
  format_version :: "64 word"

datatype FileFormatType = kNormal | kTmp

text \<open>
  \<^verbatim>\<open>boost::regex_match\<close> of a whole file name against the regex of
  \<^verbatim>\<open>GenerateFilenameRegex\<close>:
  \<^verbatim>\<open>^(\d{4}-\d{2}-\d{2}T\d{2}:\d{2}:\d{2}\.\d{6})-v(\d+)\<close> followed by
  \<^verbatim>\<open>\.tmp$\<close> or \<^verbatim>\<open>$\<close>. The result is the pair of the two sub-matches.
\<close>

definition regex_match :: "FileFormatType \<Rightarrow> string \<Rightarrow> (string \<times> string) option" where
  "regex_match type s =
     (case scan date_pieces s of None \<Rightarrow> None
      | Some (vs, r) \<Rightarrow>
          (if take 2 r = ''-v'' \<and> takeWhile is_digit (drop 2 r) \<noteq> [] \<and>
              dropWhile is_digit (drop 2 r) = (if type = kTmp then ''.tmp'' else [])
           then Some (take (length s - length r) s, takeWhile is_digit (drop 2 r))
           else None))"

text \<open>\<^verbatim>\<open>std::chrono::round\<close> from nanoseconds to microseconds: to nearest, ties to even.\<close>

definition Round :: "int \<Rightarrow> int" where
  "Round ns =
     (let q = ns div 1000; r = ns mod 1000
      in if r < 500 then q else if r > 500 then q + 1 else if even q then q else q + 1)"

definition TimePoint_min :: int where
  "TimePoint_min = - (2 ^ 63)"

definition ParseDumpName :: "string \<Rightarrow> ParsedDumpName option" where
  "ParseDumpName name =
     (case regex_match kNormal name of None \<Rightarrow> None
      | Some (g1, g2) \<Rightarrow>
          (case Stringtime g1 of Inl ex \<Rightarrow> None
           | Inr date \<Rightarrow>
               (case FromString g2 of Inl ex \<Rightarrow> None
                | Inr version \<Rightarrow>
                    Some \<lparr>filename = name, update_time = Round date, format_version = version\<rparr>)))"

definition FilenameToPath :: "string \<Rightarrow> CacheConfigStatic \<Rightarrow> string" where
  "FilenameToPath name config = dump_directory config @ ''/'' @ name"

text \<open>
  \<^verbatim>\<open>GenerateDumpPath\<close>. \<^verbatim>\<open>Timestring\<close> takes a
  \<^verbatim>\<open>system_clock::time_point\<close>: the \<^verbatim>\<open>TimePoint\<close> is converted from
  microseconds to nanoseconds at the call.
\<close>

definition GenerateDumpPath :: "int \<Rightarrow> CacheConfigStatic \<Rightarrow> string" where
  "GenerateDumpPath t config =
     dump_directory config @ ''/'' @ Timestring (wrap64 (t * 1000)) @ ''-v''
     @ dec (unat (dump_format_version config))"

text \<open>
  \<^verbatim>\<open>MinAcceptableUpdateTime\<close>; \<open>now\<close> is the reading of the clock, in
  nanoseconds. \<^verbatim>\<open>max_dump_age\<close> counts milliseconds: it is converted to
  microseconds and subtracted from the rounded clock.
\<close>

definition MinAcceptableUpdateTime :: "CacheConfigStatic \<Rightarrow> int \<Rightarrow> int" where
  "MinAcceptableUpdateTime config now =
     (case max_dump_age config of
        Some age \<Rightarrow> wrap64 (Round now - wrap64 (age * 1000))
      | None \<Rightarrow> TimePoint_min)"

subsection \<open>The filesystem\<close>

text \<open>
  The filesystem is a list of paths with the file at each path; the order of the list is
  the order in which a directory is iterated. \<^verbatim>\<open>boost::filesystem\<close> is a library
  outside of the repository; the functions of \<^verbatim>\<open>fs/read.hpp\<close> and
  \<^verbatim>\<open>fs/write.hpp\<close> are of the repository, and not among the sources at hand.

  Every operation can fail for reasons outside of the model (permissions, input and
  output errors). A record of faults says which calls raise, and what.
\<close>

datatype file_type = regular_file | directory_file | other_file

record file_node =
  status :: file_type
  data :: string
  perms :: nat

type_synonym filesystem = "(string \<times> file_node) list"

record faults =
  exists_fault :: "string \<Rightarrow> exn option"
  write_fault :: "string \<Rightarrow> exn option"
  read_fault :: "string \<Rightarrow> exn option"
  rename_fault :: "string \<Rightarrow> string \<Rightarrow> exn option"
  remove_fault :: "string \<Rightarrow> exn option"
  iterate_fault :: "string \<Rightarrow> (nat \<times> exn) option"

definition no_faults :: faults where
  "no_faults = \<lparr>exists_fault = (\<lambda>p. None), write_fault = (\<lambda>p. None), read_fault = (\<lambda>p. None),
                 rename_fault = (\<lambda>p q. None), remove_fault = (\<lambda>p. None),
                 iterate_fault = (\<lambda>p. None)\<rparr>"

definition unlink :: "string \<Rightarrow> filesystem \<Rightarrow> filesystem" where
  "unlink p fs = filter (\<lambda>e. fst e \<noteq> p) fs"

definition put :: "string \<Rightarrow> file_node \<Rightarrow> filesystem \<Rightarrow> filesystem" where
  "put p f fs = (p, f) # unlink p fs"

definition move :: "string \<Rightarrow> string \<Rightarrow> filesystem \<Rightarrow> filesystem" where
  "move old new fs = (case map_of fs old of None \<Rightarrow> fs | Some f \<Rightarrow> put new f (unlink old fs))"

text \<open>Modelled from the spec: \<^verbatim>\<open>fs::FileExists\<close>, the \<^verbatim>\<open>exists(path)\<close> of the adapter.\<close>

definition FileExists :: "faults \<Rightarrow> string \<Rightarrow> filesystem \<Rightarrow> exn + bool" where
  "FileExists flt p fs =
     (case exists_fault flt p of Some ex \<Rightarrow> Inl ex | None \<Rightarrow> Inr (map_of fs p \<noteq> None))"

text \<open>
  Modelled from the spec: \<^verbatim>\<open>fs::RewriteFileContentsAtomically\<close>, the
  \<^verbatim>\<open>write_atomic(path, bytes, perms)\<close> of the adapter, which writes to
  \<^verbatim>\<open>path.tmp\<close> and renames it onto \<^verbatim>\<open>path\<close>; a failure leaves the
  filesystem as it was.
\<close>

definition RewriteFileContentsAtomically ::
  "faults \<Rightarrow> string \<Rightarrow> string \<Rightarrow> nat \<Rightarrow> filesystem \<Rightarrow> filesystem \<times> (exn + unit)" where
  "RewriteFileContentsAtomically flt p bytes mode fs =
     (case write_fault flt p of Some ex \<Rightarrow> (fs, Inl ex)
      | None \<Rightarrow>
          (move (p @ ''.tmp'') p
             (put (p @ ''.tmp'') \<lparr>status = regular_file, data = bytes, perms = mode\<rparr> fs),
           Inr ()))"

text \<open>Modelled from the spec: \<^verbatim>\<open>fs::ReadFileContents\<close>, the \<^verbatim>\<open>read_all(path)\<close> of the adapter.\<close>

definition ReadFileContents :: "faults \<Rightarrow> string \<Rightarrow> filesystem \<Rightarrow> exn + string" where
  "ReadFileContents flt p fs =
     (case read_fault flt p of Some ex \<Rightarrow> Inl ex
      | None \<Rightarrow>
          (case map_of fs p of None \<Rightarrow> Inl filesystem_error
           | Some f \<Rightarrow> if status f = regular_file then Inr (data f) else Inl filesystem_error))"

text \<open>Modelled from the spec: \<^verbatim>\<open>fs::Rename\<close>, the \<^verbatim>\<open>rename(old, new)\<close> of the adapter.\<close>

definition Rename :: "faults \<Rightarrow> string \<Rightarrow> string \<Rightarrow> filesystem \<Rightarrow> filesystem \<times> (exn + unit)" where
  "Rename flt old new fs =
     (case rename_fault flt old new of Some ex \<Rightarrow> (fs, Inl ex)
      | None \<Rightarrow>
          (case map_of fs old of None \<Rightarrow> (fs, Inl filesystem_error)
           | Some f \<Rightarrow> (move old new fs, Inr ())))"

text \<open>
  \<^verbatim>\<open>boost::filesystem::remove(path)\<close>: false when there was no file, an exception
  when the removal fails.
\<close>

definition remove :: "faults \<Rightarrow> string \<Rightarrow> filesystem \<Rightarrow> filesystem \<times> (exn + bool)" where
  "remove flt p fs =
     (case remove_fault flt p of Some ex \<Rightarrow> (fs, Inl ex)
      | None \<Rightarrow> (unlink p fs, Inr (map_of fs p \<noteq> None)))"

text \<open>
  \<^verbatim>\<open>boost::filesystem::directory_iterator{dir}\<close>: the entries directly under
  \<open>dir\<close>, each with its file name, in the order of the filesystem. With the fault
  \<open>Some (k, ex)\<close> the iteration raises \<open>ex\<close> after \<open>k\<close> entries.
\<close>

definition child_name :: "string \<Rightarrow> string \<Rightarrow> string option" where
  "child_name dir p =
     (if take (length dir + 1) p = dir @ ''/'' \<and> drop (length dir + 1) p \<noteq> [] \<and>
         CHR ''/'' \<notin> set (drop (length dir + 1) p)
      then Some (drop (length dir + 1) p) else None)"

definition list_directory :: "string \<Rightarrow> filesystem \<Rightarrow> (string \<times> file_node) list" where
  "list_directory dir fs =
     List.map_filter (\<lambda>e. case child_name dir (fst e) of None \<Rightarrow> None
                           | Some name \<Rightarrow> Some (name, snd e)) fs"

definition directory_iterator ::
  "faults \<Rightarrow> string \<Rightarrow> filesystem \<Rightarrow> (exn + string \<times> file_node) list" where
  "directory_iterator flt dir fs =
     (case iterate_fault flt dir of None \<Rightarrow> map Inr (list_directory dir fs)
      | Some (k, ex) \<Rightarrow> map Inr (take k (list_directory dir fs)) @ [Inl ex])"

subsection \<open>The operations of the dump manager\<close>

text \<open>\<^verbatim>\<open>perms::owner_read\<close> is octal 0400, \<^verbatim>\<open>perms::owner_write\<close> octal 0200.\<close>

definition owner_read :: nat where
  "owner_read = 4 * 8 ^ 2"

definition owner_write :: nat where
  "owner_write = 2 * 8 ^ 2"

definition kPerms :: nat where
  "kPerms = or owner_read owner_write"

text \<open>
  \<^verbatim>\<open>Dumper::WriteNewDump\<close>. The call of \<^verbatim>\<open>fs::FileExists\<close> stands before the
  \<^verbatim>\<open>try\<close> block: what it raises leaves the function.
\<close>

definition WriteNewDump ::
  "CacheConfigStatic \<Rightarrow> faults \<Rightarrow> DumpContents \<Rightarrow> filesystem \<Rightarrow> filesystem \<times> (exn + bool)" where
  "WriteNewDump config flt dump fs =
     (let dump_path = GenerateDumpPath (DumpContents.update_time dump) config
      in case FileExists flt dump_path fs of
           Inl ex \<Rightarrow> (fs, Inl ex)
         | Inr True \<Rightarrow> (fs, Inr False)
         | Inr False \<Rightarrow>
             (case RewriteFileContentsAtomically flt dump_path (contents dump) kPerms fs of
                (fs', Inr u) \<Rightarrow> (fs', Inr True)
              | (fs', Inl ex) \<Rightarrow> (fs', Inr False)))"

text \<open>
  The body of the loop of \<^verbatim>\<open>Dumper::GetLatestDumpNameBlocking\<close> for one entry of
  the directory: the new value of \<^verbatim>\<open>best_dump\<close>.
\<close>

definition latest_body ::
  "CacheConfigStatic \<Rightarrow> int \<Rightarrow> string \<times> file_node \<Rightarrow> ParsedDumpName option
     \<Rightarrow> ParsedDumpName option" where
  "latest_body config min_update_time entry best_dump =
     (case entry of (name, f) \<Rightarrow>
        if status f \<noteq> regular_file then best_dump
        else case ParseDumpName name of
          None \<Rightarrow> best_dump
        | Some curr_dump \<Rightarrow>
            if format_version curr_dump \<noteq> dump_format_version config then best_dump
            else if ParsedDumpName.update_time curr_dump < min_update_time \<and>
                    max_dump_age config \<noteq> None then best_dump
            else if (case best_dump of None \<Rightarrow> True
                     | Some b \<Rightarrow> ParsedDumpName.update_time curr_dump > ParsedDumpName.update_time b)
            then Some curr_dump
            else best_dump)"

text \<open>
  The loop over the entries. An exception of the iteration ends the loop and keeps
  \<^verbatim>\<open>best_dump\<close>.
\<close>

fun latest_loop ::
  "CacheConfigStatic \<Rightarrow> int \<Rightarrow> (exn + string \<times> file_node) list \<Rightarrow> ParsedDumpName option
     \<Rightarrow> ParsedDumpName option" where
  "latest_loop config min_update_time [] best_dump = best_dump"
| "latest_loop config min_update_time (Inl ex # rest) best_dump = best_dump"
| "latest_loop config min_update_time (Inr entry # rest) best_dump =
     latest_loop config min_update_time rest (latest_body config min_update_time entry best_dump)"

definition GetLatestDumpNameBlocking ::
  "CacheConfigStatic \<Rightarrow> int \<Rightarrow> faults \<Rightarrow> filesystem \<Rightarrow> string option" where
  "GetLatestDumpNameBlocking config now flt fs =
     map_option filename
       (latest_loop config (MinAcceptableUpdateTime config now)
          (directory_iterator flt (dump_directory config) fs) None)"

text \<open>
  \<^verbatim>\<open>Dumper::ReadLatestDump\<close>; \<open>now\<close> is the reading of the clock, in nanoseconds.
  The source reads \<^verbatim>\<open>ParseDumpName(filename)->update_time\<close> without a check;
  the name has been parsed before, and the branch for a name that does not parse is
  here only to make the function total.
\<close>

definition ReadLatestDump ::
  "CacheConfigStatic \<Rightarrow> int \<Rightarrow> faults \<Rightarrow> filesystem \<Rightarrow> exn + DumpContents option" where
  "ReadLatestDump config now flt fs =
     (case GetLatestDumpNameBlocking config now flt fs of
        None \<Rightarrow> Inr None
      | Some name \<Rightarrow>
          (case ReadFileContents flt (FilenameToPath name config) fs of
             Inl ex \<Rightarrow> Inr None
           | Inr bytes \<Rightarrow>
               (case ParseDumpName name of
                  None \<Rightarrow> Inl std_exception
                | Some parsed \<Rightarrow>
                    Inr (Some \<lparr>contents = bytes,
                               update_time = ParsedDumpName.update_time parsed\<rparr>))))"

text \<open>
  \<^verbatim>\<open>Dumper::BumpDumpTime\<close>. The handler catches
  \<^verbatim>\<open>boost::filesystem::filesystem_error\<close> only. \<^verbatim>\<open>UASSERT\<close> is checked in
  debug builds only and is a precondition here.
\<close>

definition bump_handler :: "filesystem \<Rightarrow> exn \<Rightarrow> filesystem \<times> (exn + bool)" where
  "bump_handler fs ex = (case ex of filesystem_error \<Rightarrow> (fs, Inr False) | std_exception \<Rightarrow> (fs, Inl ex))"

definition BumpDumpTime ::
  "CacheConfigStatic \<Rightarrow> faults \<Rightarrow> int \<Rightarrow> int \<Rightarrow> filesystem \<Rightarrow> filesystem \<times> (exn + bool)" where
  "BumpDumpTime config flt old_update_time new_update_time fs =
     (let old_name = GenerateDumpPath old_update_time config;
          new_name = GenerateDumpPath new_update_time config
      in case FileExists flt old_name fs of
           Inl ex \<Rightarrow> bump_handler fs ex
         | Inr False \<Rightarrow> (fs, Inr False)
         | Inr True \<Rightarrow>
             (case Rename flt old_name new_name fs of
                (fs', Inl ex) \<Rightarrow> bump_handler fs' ex
              | (fs', Inr u) \<Rightarrow> (fs', Inr True)))"

text \<open>
  The body of the first loop of \<^verbatim>\<open>Dumper::CleanupBlocking\<close> for one entry of the
  directory, with the filesystem and the vector \<^verbatim>\<open>dumps\<close> as its state.
\<close>

definition cleanup_body ::
  "CacheConfigStatic \<Rightarrow> int \<Rightarrow> faults \<Rightarrow> string \<times> file_node \<Rightarrow> filesystem
     \<Rightarrow> ParsedDumpName list \<Rightarrow> filesystem \<times> (exn + ParsedDumpName list)" where
  "cleanup_body config min_update_time flt entry fs dumps =
     (case entry of (name, f) \<Rightarrow>
        if status f \<noteq> regular_file then (fs, Inr dumps)
        else if regex_match kTmp name \<noteq> None
        then (case remove flt (FilenameToPath name config) fs of
                (fs', Inl ex) \<Rightarrow> (fs', Inl ex)
              | (fs', Inr b) \<Rightarrow> (fs', Inr dumps))
        else case ParseDumpName name of
          None \<Rightarrow> (fs, Inr dumps)
        | Some dump \<Rightarrow>
            if format_version dump < dump_format_version config \<or>
               ParsedDumpName.update_time dump < min_update_time
            then (case remove flt (FilenameToPath name config) fs of
                    (fs', Inl ex) \<Rightarrow> (fs', Inl ex)
                  | (fs', Inr b) \<Rightarrow> (fs', Inr dumps))
            else if format_version dump = dump_format_version config
            then (fs, Inr (dumps @ [dump]))
            else (fs, Inr dumps))"

text \<open>The loop over the entries. An exception leaves the loop.\<close>

fun cleanup_loop ::
  "CacheConfigStatic \<Rightarrow> int \<Rightarrow> faults \<Rightarrow> (exn + string \<times> file_node) list \<Rightarrow> filesystem
     \<Rightarrow> ParsedDumpName list \<Rightarrow> filesystem \<times> (exn + ParsedDumpName list)" where
  "cleanup_loop config min_update_time flt [] fs dumps = (fs, Inr dumps)"
| "cleanup_loop config min_update_time flt (Inl ex # rest) fs dumps = (fs, Inl ex)"
| "cleanup_loop config min_update_time flt (Inr entry # rest) fs dumps =
     (case cleanup_body config min_update_time flt entry fs dumps of
        (fs', Inl ex) \<Rightarrow> (fs', Inl ex)
      | (fs', Inr dumps') \<Rightarrow> cleanup_loop config min_update_time flt rest fs' dumps')"

text \<open>The second loop: the removal of the dumps from index \<^verbatim>\<open>max_dump_count\<close> on.\<close>

fun remove_excess ::
  "CacheConfigStatic \<Rightarrow> faults \<Rightarrow> ParsedDumpName list \<Rightarrow> filesystem \<Rightarrow> filesystem \<times> exn option" where
  "remove_excess config flt [] fs = (fs, None)"
| "remove_excess config flt (dump # rest) fs =
     (case remove flt (FilenameToPath (filename dump) config) fs of
        (fs', Inl ex) \<Rightarrow> (fs', Some ex)
      | (fs', Inr b) \<Rightarrow> remove_excess config flt rest fs')"

text \<open>
  \<^verbatim>\<open>Dumper::CleanupBlocking\<close>. The result is the filesystem and the exception that
  the handler has logged, if any. \<^verbatim>\<open>std::sort\<close> orders the dumps by falling
  update time; the order of dumps of equal time is not determined by the source and
  is here that of their insertion.
\<close>

definition CleanupBlocking ::
  "CacheConfigStatic \<Rightarrow> int \<Rightarrow> faults \<Rightarrow> filesystem \<Rightarrow> filesystem \<times> exn option" where
  "CleanupBlocking config now flt fs =
     (case cleanup_loop config (MinAcceptableUpdateTime config now) flt
             (directory_iterator flt (dump_directory config) fs) fs [] of
        (fs', Inl ex) \<Rightarrow> (fs', Some ex)
      | (fs', Inr dumps) \<Rightarrow>
          remove_excess config flt
            (drop (max_dump_count config)
               (sort_key (\<lambda>d. - ParsedDumpName.update_time d) dumps)) fs')"

text \<open>\<^verbatim>\<open>Dumper::Cleanup\<close>: returns normally, whatever has been logged.\<close>

definition Cleanup ::
  "CacheConfigStatic \<Rightarrow> int \<Rightarrow> faults \<Rightarrow> filesystem \<Rightarrow> filesystem \<times> (exn + unit)" where
  "Cleanup config now flt fs = (fst (CleanupBlocking config now flt fs), Inr ())"

subsection \<open>Notions for the proofs\<close>

text \<open>
  An entry that the first loop of \<^verbatim>\<open>CleanupBlocking\<close> removes, and the dump that it
  appends to \<^verbatim>\<open>dumps\<close> for an entry that it keeps.
\<close>

definition doomed :: "CacheConfigStatic \<Rightarrow> int \<Rightarrow> string \<times> file_node \<Rightarrow> bool" where
  "doomed config m e =
     (status (snd e) = regular_file \<and>
      (regex_match kTmp (fst e) \<noteq> None \<or>
       (case ParseDumpName (fst e) of None \<Rightarrow> False
        | Some d \<Rightarrow> format_version d < dump_format_version config \<or>
                    ParsedDumpName.update_time d < m)))"

definition retained :: "CacheConfigStatic \<Rightarrow> int \<Rightarrow> string \<times> file_node \<Rightarrow> ParsedDumpName option" where
  "retained config m e =
     (if status (snd e) = regular_file \<and> regex_match kTmp (fst e) = None
      then (case ParseDumpName (fst e) of None \<Rightarrow> None
            | Some d \<Rightarrow>
                if format_version d < dump_format_version config \<or>
                   ParsedDumpName.update_time d < m then None
                else if format_version d = dump_format_version config then Some d else None)
      else None)"

text \<open>
  The dump that the loop of \<^verbatim>\<open>GetLatestDumpNameBlocking\<close> compares with
  \<^verbatim>\<open>best_dump\<close> for an entry of the directory, with the least acceptable update
  time \<open>m\<close>: that of a regular file whose name parses, with exactly the format version
  of the configuration, and not below \<open>m\<close> when \<^verbatim>\<open>max_dump_age\<close> is set.
\<close>

definition candidate :: "CacheConfigStatic \<Rightarrow> int \<Rightarrow> string \<times> file_node \<Rightarrow> ParsedDumpName option" where
  "candidate config m e =
     (if status (snd e) = regular_file
      then (case ParseDumpName (fst e) of None \<Rightarrow> None
            | Some d \<Rightarrow>
                if format_version d = dump_format_version config \<and>
                   \<not> (ParsedDumpName.update_time d < m \<and> max_dump_age config \<noteq> None)
                then Some d else None)
      else None)"

text \<open>
  The paths that \<^verbatim>\<open>CleanupBlocking\<close> removes when no call fails, in the order of
  the calls of \<^verbatim>\<open>boost::filesystem::remove\<close>: those of the first loop, in the
  order of the directory, then those of the second loop.
\<close>

definition removals :: "CacheConfigStatic \<Rightarrow> int \<Rightarrow> filesystem \<Rightarrow> string list" where
  "removals config now fs =
     (let m = MinAcceptableUpdateTime config now;
          es = list_directory (dump_directory config) fs
      in map (\<lambda>e. FilenameToPath (fst e) config) (filter (doomed config m) es) @
         map (\<lambda>d. FilenameToPath (filename d) config)
           (drop (max_dump_count config)
              (sort_key (\<lambda>d. - ParsedDumpName.update_time d)
                 (List.map_filter (retained config m) es))))"

section \<open>Properties\<close>

subsection \<open>Paths of the filesystem\<close>

lemma map_of_unlink: "map_of (unlink p fs) q = (if q = p then None else map_of fs q)"
  unfolding unlink_def by (induction fs) auto

lemma map_of_put: "map_of (put p f fs) q = (if q = p then Some f else map_of fs q)"
  by (simp add: put_def map_of_unlink)

lemma map_of_move:
  "map_of fs old = Some f \<Longrightarrow>
   map_of (move old new fs) q = (if q = new then Some f else if q = old then None else map_of fs q)"
  by (simp add: move_def map_of_put map_of_unlink)


subsection \<open>Arithmetic on 64 bits\<close>

lemma wrap64_id: "- (2 ^ 63) \<le> x \<Longrightarrow> x < 2 ^ 63 \<Longrightarrow> wrap64 x = x"
  by (simp add: wrap64_def)

lemma wrap64_bounds: "- (2 ^ 63) \<le> wrap64 x" "wrap64 x < 2 ^ 63"
proof -
  have "0 \<le> (x + 2 ^ 63) mod 2 ^ 64" by simp
  then show "- (2 ^ 63) \<le> wrap64 x" by (simp add: wrap64_def)
  have "(x + 2 ^ 63) mod 2 ^ 64 < (2 ^ 64 :: int)" by simp
  then show "wrap64 x < 2 ^ 63" by (simp add: wrap64_def)
qed

lemma wrap64_diff: "wrap64 (a - wrap64 b) = wrap64 (a - b)"
proof -
  define M :: int where "M = 2 ^ 64"
  define H :: int where "H = 2 ^ 63"
  have MH: "M = H + H" by (simp add: M_def H_def)
  have "(a - ((b + H) mod M - H) + H) mod M = (a + M - (b + H) mod M) mod M"
    by (simp add: MH algebra_simps)
  also have "\<dots> = (a + M - (b + H)) mod M"
    by (rule mod_diff_right_eq)
  also have "\<dots> = (a - b + H) mod M"
    by (simp add: MH algebra_simps)
  finally show ?thesis
    unfolding wrap64_def M_def[symmetric] H_def[symmetric] by simp
qed

lemma wrap64_us:
  "- 9223372036854775 \<le> t \<Longrightarrow> t \<le> 9223372036854775 \<Longrightarrow> wrap64 (t * 1000) = t * 1000"
  by (rule wrap64_id) simp_all

lemma Round_bounds: "ns div 1000 \<le> Round ns" "Round ns \<le> ns div 1000 + 1"
  by (simp_all add: Round_def Let_def)

lemma Round_wrap64_bounds:
  "- 9223372036854776 \<le> Round (wrap64 x)" "Round (wrap64 x) \<le> 9223372036854776"
proof -
  define q where "q = wrap64 x div 1000"
  have a: "1000 * q \<le> wrap64 x" "wrap64 x < 1000 * q + 1000"
    unfolding q_def by (simp_all add: algebra_simps)
  have b: "- 9223372036854775808 \<le> wrap64 x" "wrap64 x < 9223372036854775808"
    using wrap64_bounds[of x] by simp_all
  have c: "- 9223372036854776 \<le> q" "q \<le> 9223372036854775" using a b by linarith+
  show "- 9223372036854776 \<le> Round (wrap64 x)"
    using Round_bounds(1)[of "wrap64 x"] c unfolding q_def by linarith
  show "Round (wrap64 x) \<le> 9223372036854776"
    using Round_bounds(2)[of "wrap64 x"] c unfolding q_def by linarith
qed

lemma MinAcceptableUpdateTime_Some:
  "max_dump_age config = Some age \<Longrightarrow>
   MinAcceptableUpdateTime config now = wrap64 (Round now - age * 1000)"
  by (simp add: MinAcceptableUpdateTime_def wrap64_diff)

lemma MinAcceptableUpdateTime_exact:
  "max_dump_age config = Some age \<Longrightarrow> - (2 ^ 63) \<le> Round now - age * 1000 \<Longrightarrow>
   Round now - age * 1000 < 2 ^ 63 \<Longrightarrow>
   MinAcceptableUpdateTime config now = Round now - age * 1000"
  by (simp add: MinAcceptableUpdateTime_Some wrap64_id)

subsection \<open>A dump of the second of January 2024\<close>

lemma Timestring_example: "Timestring 1704164645000000000 = ''2024-01-02T03:04:05.000000''"
  by code_simp

lemma dec_3: "dec 3 = ''3''"
  by code_simp

lemma GenerateDumpPath_example:
  "GenerateDumpPath 1704164645000000
     \<lparr>dump_directory = d, dump_format_version = 3, max_dump_age = a, max_dump_count = c\<rparr>
   = d @ ''/2024-01-02T03:04:05.000000-v3''"
  by (simp add: GenerateDumpPath_def wrap64_def Timestring_example dec_3)

subsection \<open>Decimal text and the pieces of a name\<close>

lemma lt10_cases:
  "n < 10 \<Longrightarrow> n = (9::nat) \<or> n = 8 \<or> n = 7 \<or> n = 6 \<or> n = 5 \<or> n = 4 \<or> n = 3 \<or> n = 2 \<or> n = 1 \<or> n = 0"
  by arith

lemma digit_char_digit: "n < 10 \<Longrightarrow> is_digit (digit_char n)"
  using lt10_cases[of n] by (auto simp: is_digit_def digit_char_def)

lemma digit_val_digit_char: "n < 10 \<Longrightarrow> digit_val (digit_char n) = n"
  using lt10_cases[of n] by (auto simp: digit_val_def digit_char_def)

lemma digit_char_zero: "n < 10 \<Longrightarrow> digit_char n = CHR ''0'' \<longleftrightarrow> n = 0"
  using lt10_cases[of n] by (auto simp: digit_char_def)

lemma is_digit_zero: "is_digit CHR ''0''"
  by (simp add: is_digit_def)

lemma digit_val_zero: "digit_val CHR ''0'' = 0"
  by (simp add: digit_val_def)

lemma dec_digits: "list_all is_digit (dec n)"
  by (induction n rule: dec.induct) (subst dec.simps, simp add: digit_char_digit)

lemma dec_not_Nil: "dec n \<noteq> []"
  by (subst dec.simps) simp

lemma num_Nil: "num [] = 0"
  by (simp add: num_def)

lemma num_snoc: "num (s @ [c]) = 10 * num s + digit_val c"
  by (simp add: num_def)

lemma num_dec: "num (dec n) = n"
proof (induction n rule: dec.induct)
  case (1 n)
  show ?case
  proof (cases "n < 10")
    case True
    then show ?thesis
      by (subst dec.simps) (simp add: num_def digit_val_digit_char)
  next
    case False
    then have "num (dec n) = 10 * num (dec (n div 10)) + digit_val (digit_char (n mod 10))"
      by (subst dec.simps) (simp add: num_snoc)
    also have "\<dots> = 10 * (n div 10) + n mod 10"
      using 1 False by (simp add: digit_val_digit_char)
    finally show ?thesis by simp
  qed
qed

lemma length_dec: "n < 10 ^ k \<Longrightarrow> 0 < k \<Longrightarrow> length (dec n) \<le> k"
proof (induction n arbitrary: k rule: dec.induct)
  case (1 n)
  show ?case
  proof (cases "n < 10")
    case True
    then show ?thesis using "1.prems" by (subst dec.simps) simp
  next
    case False
    obtain j where k: "k = Suc j" using "1.prems"(2) by (cases k) auto
    have "j \<noteq> 0" using False "1.prems"(1) k by (cases j) auto
    moreover have "n div 10 < 10 ^ j" using "1.prems"(1) k by (simp add: less_mult_imp_div_less mult.commute)
    ultimately have "length (dec (n div 10)) \<le> j"
      using "1.IH"[OF False, of j] by simp
    then show ?thesis using False k by (subst dec.simps) simp
  qed
qed

lemma num_zeros: "num (replicate j CHR ''0'' @ s) = num s"
proof -
  have "foldl (\<lambda>a c. 10 * a + digit_val c) 0 (replicate j CHR ''0'') = 0"
    by (induction j) (simp_all add: digit_val_zero)
  then show ?thesis by (simp add: num_def)
qed

lemma num_pad: "num (pad k (dec n)) = n"
  by (simp add: pad_def num_zeros num_dec)

lemma length_pad: "n < 10 ^ k \<Longrightarrow> 0 < k \<Longrightarrow> length (pad k (dec n)) = k"
  using length_dec[of n k] by (simp add: pad_def)

lemma pad_digits: "list_all is_digit (pad k (dec n))"
  using dec_digits[of n] by (auto simp: pad_def list_all_iff is_digit_zero)

lemma dec_leading_zero: "hd (dec n) = CHR ''0'' \<Longrightarrow> n = 0"
proof (induction n rule: dec.induct)
  case (1 n)
  show ?case
  proof (cases "n < 10")
    case True
    with "1.prems" show ?thesis
      by (subst (asm) dec.simps) (simp add: digit_char_zero)
  next
    case False
    with "1.prems" have "hd (dec (n div 10)) = CHR ''0''"
      by (subst (asm) dec.simps) (simp add: dec_not_Nil)
    with "1.IH"[OF False] have "n div 10 = 0" by simp
    with False show ?thesis by simp
  qed
qed

lemma scan_Digits:
  assumes "n < 10 ^ k" "0 < k"
  shows "scan (Digits k # ps) (pad k (dec n) @ rest) =
     (case scan ps rest of None \<Rightarrow> None | Some (vs, r) \<Rightarrow> Some (n # vs, r))"
  using length_pad[OF assms] pad_digits[of k n] by (simp add: num_pad split: option.splits)

lemma scan_Lit: "scan (Lit l # ps) (l @ rest) = scan ps rest"
  by simp

lemma FromString_dec: "FromString (dec (unat (v :: 64 word))) = Inr v"
proof -
  have "unat v < 2 ^ 64" using unsigned_less[of v] by simp
  then show ?thesis
    by (simp add: FromString_def dec_not_Nil dec_digits num_dec)
qed

lemma Round_exact: "Round (t * 1000) = t"
  by (simp add: Round_def)

subsection \<open>The calendar\<close>

lemma div_lo: "0 < k \<Longrightarrow> k * (x div k) \<le> (x::int)"
  using pos_mod_sign[of k x] mult_div_mod_eq[of k x] by linarith

lemma div_hi: "0 < k \<Longrightarrow> (x::int) < k * (x div k) + k"
  using pos_mod_bound[of k x] mult_div_mod_eq[of k x] by linarith

lemma div_step_lo: "0 < k \<Longrightarrow> (x::int) div k \<le> (x + 1) div k"
  by (rule zdiv_mono1) simp_all

lemma div_step_hi: "1 < k \<Longrightarrow> ((x::int) + 1) div k \<le> x div k + 1"
proof -
  assume k: "1 < k"
  define a where "a = (x + 1) div k"
  define b where "b = x div k"
  have 1: "k * a \<le> x + 1" unfolding a_def using div_lo[of k "x + 1"] k by simp
  have 2: "x < k * b + k" unfolding b_def using div_hi[of k x] k by simp
  have "k * a < k * (b + 2)" using 1 2 k by (simp add: algebra_simps)
  then have "a < b + 2" using k by (simp add: mult_less_cancel_left)
  then show ?thesis unfolding a_def b_def by simp
qed

lemma year_start_step_lo: "year_start y + 364 \<le> year_start (y + 1)"
proof -
  define a where "a = y div 4" define a' where "a' = (y + 1) div 4"
  define b where "b = y div 100" define b' where "b' = (y + 1) div 100"
  define c where "c = y div 400" define c' where "c' = (y + 1) div 400"
  have "a \<le> a'" unfolding a_def a'_def by (rule div_step_lo) simp
  moreover have "c \<le> c'" unfolding c_def c'_def by (rule div_step_lo) simp
  moreover have "b' \<le> b + 1" unfolding b_def b'_def by (rule div_step_hi) simp
  ultimately have "365 * y + a - b + c + 364 \<le> 365 * y + 365 + a' - b' + c'" by linarith
  then show ?thesis unfolding year_start_def a_def a'_def b_def b'_def c_def c'_def
    by (simp add: algebra_simps)
qed

lemma year_start_step_hi: "year_start (y + 1) \<le> year_start y + 367"
proof -
  define a where "a = y div 4" define a' where "a' = (y + 1) div 4"
  define b where "b = y div 100" define b' where "b' = (y + 1) div 100"
  define c where "c = y div 400" define c' where "c' = (y + 1) div 400"
  have "a' \<le> a + 1" unfolding a_def a'_def by (rule div_step_hi) simp
  moreover have "b \<le> b'" unfolding b_def b'_def by (rule div_step_lo) simp
  moreover have "c' \<le> c + 1" unfolding c_def c'_def by (rule div_step_hi) simp
  ultimately have "365 * y + 365 + a' - b' + c' \<le> 365 * y + a - b + c + 367" by linarith
  then show ?thesis unfolding year_start_def a_def a'_def b_def b'_def c_def c'_def
    by (simp add: algebra_simps)
qed

lemma year_start_mono: "y \<le> y' \<Longrightarrow> year_start y \<le> year_start y'"
proof (induction y' rule: int_ge_induct)
  case base
  then show ?case by simp
next
  case (step i)
  then show ?case using year_start_step_lo[of i] by linarith
qed

lemma year_start_strict: "y < y' \<Longrightarrow> year_start y < year_start y'"
  using year_start_mono[of "y + 1" y'] year_start_step_lo[of y] by linarith

lemma year_start_estimate_lo: "year_start (400 * z div 146097) \<le> z"
proof -
  define y where "y = 400 * z div 146097"
  define a where "a = y div 4"
  define b where "b = y div 100"
  define c where "c = y div 400"
  have "146097 * y \<le> 400 * z" unfolding y_def using div_lo[of 146097 "400 * z"] by simp
  moreover have "4 * a \<le> y" unfolding a_def using div_lo[of 4 y] by simp
  moreover have "y < 100 * b + 100" unfolding b_def using div_hi[of 100 y] by simp
  moreover have "400 * c \<le> y" unfolding c_def using div_lo[of 400 y] by simp
  ultimately have "365 * y + a - b + c \<le> z" by linarith
  then show ?thesis unfolding year_start_def y_def[symmetric] a_def b_def c_def .
qed

lemma year_start_estimate_hi: "z < year_start (400 * z div 146097 + 2)"
proof -
  define y where "y = 400 * z div 146097"
  define w where "w = y + 2"
  define a where "a = w div 4"
  define b where "b = w div 100"
  define c where "c = w div 400"
  have "400 * z < 146097 * y + 146097" unfolding y_def using div_hi[of 146097 "400 * z"] by simp
  moreover have "w < 4 * a + 4" unfolding a_def using div_hi[of 4 w] by simp
  moreover have "100 * b \<le> w" unfolding b_def using div_lo[of 100 w] by simp
  moreover have "w < 400 * c + 400" unfolding c_def using div_hi[of 400 w] by simp
  ultimately have "z < 365 * w + a - b + c" using w_def by linarith
  then show ?thesis unfolding year_start_def y_def[symmetric] w_def[symmetric] a_def b_def c_def .
qed

lemma march_year_bracket:
  "year_start (march_year z) \<le> z \<and> z < year_start (march_year z + 1)"
proof -
  define y0 where "y0 = 400 * z div 146097"
  have lo: "year_start y0 \<le> z" unfolding y0_def by (rule year_start_estimate_lo)
  have "z < year_start (y0 + 2)" unfolding y0_def by (rule year_start_estimate_hi)
  then have hi: "z < year_start (y0 + 1 + 1)" by (simp add: add.assoc)
  have m: "march_year z = (if year_start (y0 + 1) \<le> z then y0 + 1 else y0)"
    by (simp add: march_year_def Let_def y0_def)
  show ?thesis
  proof (cases "year_start (y0 + 1) \<le> z")
    case True
    with m hi show ?thesis by simp
  next
    case False
    with m lo show ?thesis by simp
  qed
qed

lemma march_year_unique:
  "year_start y \<le> z \<Longrightarrow> z < year_start (y + 1) \<Longrightarrow> march_year z = y"
proof -
  assume a: "year_start y \<le> z" "z < year_start (y + 1)"
  have b: "year_start (march_year z) \<le> z" "z < year_start (march_year z + 1)"
    using march_year_bracket[of z] by simp_all
  have "\<not> march_year z < y"
  proof
    assume "march_year z < y"
    then have "year_start (march_year z + 1) \<le> year_start y" by (intro year_start_mono) simp
    with a b show False by linarith
  qed
  moreover have "\<not> y < march_year z"
  proof
    assume "y < march_year z"
    then have "year_start (y + 1) \<le> year_start (march_year z)" by (intro year_start_mono) simp
    with a b show False by linarith
  qed
  ultimately show ?thesis by simp
qed

lemma month_day_bounds:
  assumes "0 \<le> doy" "doy \<le> 366" "month_day doy = (m, d)"
  shows "1 \<le> m" "m \<le> 12" "1 \<le> d" "d \<le> 31"
    and "(153 * (if m > 2 then m - 3 else m + 9) + 2) div 5 + d - 1 = doy"
    and "m \<le> 2 \<longleftrightarrow> 306 \<le> doy"
proof -
  define mp where "mp = (5 * doy + 2) div 153"
  have lo: "153 * mp \<le> 5 * doy + 2" unfolding mp_def using div_lo[of 153 "5 * doy + 2"] by simp
  have hi: "5 * doy + 2 < 153 * mp + 153" unfolding mp_def using div_hi[of 153 "5 * doy + 2"] by simp
  have mp: "0 \<le> mp" "mp \<le> 11" using lo hi assms(1,2) by linarith+
  define q where "q = (153 * mp + 2) div 5"
  have qlo: "5 * q \<le> 153 * mp + 2" unfolding q_def using div_lo[of 5 "153 * mp + 2"] by simp
  have qhi: "153 * mp + 2 < 5 * q + 5" unfolding q_def using div_hi[of 5 "153 * mp + 2"] by simp
  have m: "m = (if mp < 10 then mp + 3 else mp - 9)" and d: "d = doy - q + 1"
    using assms(3) by (auto simp: month_day_def Let_def mp_def q_def)
  show "1 \<le> m" "m \<le> 12" using m mp by (simp_all split: if_splits)
  show "1 \<le> d" "d \<le> 31" using d qlo qhi lo hi by linarith+
  have "(if m > 2 then m - 3 else m + 9) = mp" using m mp by (simp split: if_splits)
  then show "(153 * (if m > 2 then m - 3 else m + 9) + 2) div 5 + d - 1 = doy"
    using d by (simp add: q_def)
  show "m \<le> 2 \<longleftrightarrow> 306 \<le> doy" using m mp lo hi by (auto split: if_splits)
qed


lemma days_from_civil_from_days: "civil_from_days z = (y, m, d) \<Longrightarrow> days_from_civil y m d = z"
proof -
  assume c: "civil_from_days z = (y, m, d)"
  define z' where "z' = z + 719468"
  define y' where "y' = march_year z'"
  define doy where "doy = z' - year_start y'"
  have br: "year_start y' \<le> z'" "z' < year_start (y' + 1)"
    using march_year_bracket[of z'] by (simp_all add: y'_def)
  have doy: "0 \<le> doy" "doy \<le> 366"
    using br year_start_step_hi[of y'] by (simp_all add: doy_def)
  have md: "month_day doy = (m, d)" and y: "y = (if m \<le> 2 then y' + 1 else y')"
    using c by (auto simp: civil_from_days_def Let_def z'_def y'_def doy_def split: prod.splits)
  have y'': "(if m \<le> 2 then y - 1 else y) = y'" using y by simp
  show ?thesis
    using month_day_bounds(5)[OF doy md] y''
    by (simp add: days_from_civil_def Let_def doy_def z'_def)
qed

lemma civil_from_days_bounds:
  assumes "civil_from_days z = (y, m, d)"
  shows "1 \<le> m" "m \<le> 12" "1 \<le> d" "d \<le> 31"
proof -
  define z' where "z' = z + 719468"
  define y' where "y' = march_year z'"
  define doy where "doy = z' - year_start y'"
  have br: "year_start y' \<le> z'" "z' < year_start (y' + 1)"
    using march_year_bracket[of z'] by (simp_all add: y'_def)
  have doy: "0 \<le> doy" "doy \<le> 366"
    using br year_start_step_hi[of y'] by (simp_all add: doy_def)
  have md: "month_day doy = (m, d)"
    using assms by (auto simp: civil_from_days_def Let_def z'_def y'_def doy_def split: prod.splits)
  show "1 \<le> m" "m \<le> 12" "1 \<le> d" "d \<le> 31"
    using month_day_bounds(1-4)[OF doy md] by simp_all
qed

lemma year_start_values:
  "year_start (- 1) = - 366" "year_start 0 = 0" "year_start 9999 = 3652059" "year_start 10000 = 3652425"
  by (simp_all add: year_start_def)

lemma civil_from_days_year:
  assumes "civil_from_days z = (y, m, d)" "- 719528 \<le> z" "z \<le> 2932896"
  shows "0 \<le> y" "y \<le> 9999"
proof -
  define z' where "z' = z + 719468"
  define y' where "y' = march_year z'"
  define doy where "doy = z' - year_start y'"
  have br: "year_start y' \<le> z'" "z' < year_start (y' + 1)"
    using march_year_bracket[of z'] by (simp_all add: y'_def)
  have doy: "0 \<le> doy" "doy \<le> 366"
    using br year_start_step_hi[of y'] by (simp_all add: doy_def)
  have md: "month_day doy = (m, d)" and y: "y = (if m \<le> 2 then y' + 1 else y')"
    using assms(1) by (auto simp: civil_from_days_def Let_def z'_def y'_def doy_def split: prod.splits)
  note m2 = month_day_bounds(6)[OF doy md]
  have zr: "- 60 \<le> z'" "z' \<le> 3652364" using assms(2,3) by (simp_all add: z'_def)
  have lo: "- 1 \<le> y'"
  proof (rule ccontr)
    assume "\<not> - 1 \<le> y'"
    then have "year_start (y' + 1) \<le> year_start (- 1)" by (intro year_start_mono) simp
    with br zr show False by (simp add: year_start_values)
  qed
  have hi: "y' \<le> 9999"
  proof (rule ccontr)
    assume "\<not> y' \<le> 9999"
    then have "year_start 10000 \<le> year_start y'" by (intro year_start_mono) simp
    with br zr show False by (simp add: year_start_values)
  qed
  show "0 \<le> y"
  proof (cases "y' = - 1")
    case True
    then have "306 \<le> doy" using zr by (simp add: doy_def year_start_values)
    with m2 y True show ?thesis by simp
  next
    case False
    with lo y show ?thesis by (simp split: if_splits)
  qed
  show "y \<le> 9999"
  proof (cases "y' = 9999")
    case True
    then have "\<not> 306 \<le> doy" using zr by (simp add: doy_def year_start_values)
    with m2 y True show ?thesis by simp
  next
    case False
    with hi y show ?thesis by (simp split: if_splits)
  qed
qed

subsection \<open>Names that the manager writes parse back\<close>

lemma time_of_day:
  fixes sod :: int
  assumes "0 \<le> sod" "sod < 86400"
  shows "0 \<le> sod div 3600" "sod div 3600 < 24" "0 \<le> sod mod 3600 div 60" "sod mod 3600 div 60 < 60"
    "0 \<le> sod mod 60" "sod mod 60 < 60"
    "sod div 3600 * 3600 + sod mod 3600 div 60 * 60 + sod mod 60 = sod"
proof -
  define h where "h = sod div 3600"
  define r where "r = sod mod 3600"
  define mi where "mi = r div 60"
  define sec where "sec = r mod 60"
  have s: "h * 3600 + r = sod" unfolding h_def r_def by simp
  have r: "0 \<le> r" "r < 3600" unfolding r_def by simp_all
  have h: "0 \<le> h" "h < 24" using s r assms by linarith+
  have r2: "mi * 60 + sec = r" unfolding mi_def sec_def by simp
  have sec: "0 \<le> sec" "sec < 60" unfolding sec_def by simp_all
  have mi: "0 \<le> mi" "mi < 60" using r2 r sec by linarith+
  have "sod mod 60 = r mod 60" unfolding r_def by (simp add: mod_mod_cancel)
  then have sm: "sod mod 60 = sec" by (simp add: sec_def)
  show "0 \<le> sod div 3600" "sod div 3600 < 24" using h by (simp_all add: h_def)
  show "0 \<le> sod mod 3600 div 60" "sod mod 3600 div 60 < 60" using mi by (simp_all add: mi_def r_def)
  show "0 \<le> sod mod 60" "sod mod 60 < 60" by simp_all
  have "h * 3600 + mi * 60 + sec = sod" using s r2 by linarith
  then show "sod div 3600 * 3600 + sod mod 3600 div 60 * 60 + sod mod 60 = sod"
    unfolding sm unfolding h_def mi_def r_def .
qed

lemma nat_lt_pow: "0 \<le> x \<Longrightarrow> x < int b \<Longrightarrow> nat x < b"
  by simp

lemma Timestring_scan:
  assumes lo: "- 62167219200000000 \<le> us" and hi: "us \<le> 253402300799999999"
    and c: "civil_from_days (us div 1000000 div 86400) = (y, m, d)"
  shows "scan date_pieces (Timestring (us * 1000) @ rest) =
           Some ([nat y, nat m, nat d, nat (us div 1000000 mod 86400 div 3600),
                  nat (us div 1000000 mod 86400 mod 3600 div 60),
                  nat (us div 1000000 mod 86400 mod 60), nat (us mod 1000000)], rest)"
proof -
  define secs where "secs = us div 1000000"
  define days where "days = secs div 86400"
  define sod where "sod = secs mod 86400"
  define frac where "frac = us mod 1000000"
  have s1: "1000000 * secs \<le> us" "us < 1000000 * secs + 1000000"
    unfolding secs_def using div_lo[of 1000000 us] div_hi[of 1000000 us] by simp_all
  have d1: "86400 * days \<le> secs" "secs < 86400 * days + 86400"
    unfolding days_def using div_lo[of 86400 secs] div_hi[of 86400 secs] by simp_all
  have dr: "- 719528 \<le> days" "days \<le> 2932896" using s1 d1 lo hi by linarith+
  have c': "civil_from_days days = (y, m, d)" using c by (simp add: days_def secs_def)
  note yb = civil_from_days_year[OF c' dr]
  note mb = civil_from_days_bounds[OF c']
  have sod: "0 \<le> sod" "sod < 86400" unfolding sod_def by simp_all
  note tod = time_of_day[OF sod]
  have frac: "0 \<le> frac" "frac < 1000000" unfolding frac_def by simp_all
  have ny: "nat y < 10 ^ 4" using yb by simp
  have nm: "nat m < 10 ^ 2" using mb by simp
  have nd: "nat d < 10 ^ 2" using mb by simp
  have nh: "nat (sod div 3600) < 10 ^ 2" using tod(1,2) by simp
  have nmi: "nat (sod mod 3600 div 60) < 10 ^ 2" using tod(3,4) by simp
  have ns: "nat (sod mod 60) < 10 ^ 2" using tod(5,6) by simp
  have nf: "nat frac < 10 ^ 6" using frac by simp
  have T: "Timestring (us * 1000) @ rest =
      pad 4 (dec (nat y)) @ ''-'' @ pad 2 (dec (nat m)) @ ''-'' @ pad 2 (dec (nat d)) @ ''T''
           @ pad 2 (dec (nat (sod div 3600))) @ '':'' @ pad 2 (dec (nat (sod mod 3600 div 60)))
           @ '':'' @ pad 2 (dec (nat (sod mod 60))) @ ''.'' @ pad 6 (dec (nat frac)) @ rest"
    using c' yb
    by (simp add: Timestring_def Let_def year_text_def secs_def[symmetric] days_def[symmetric]
          sod_def[symmetric] frac_def[symmetric])
  have "scan date_pieces (Timestring (us * 1000) @ rest) =
           Some ([nat y, nat m, nat d, nat (sod div 3600), nat (sod mod 3600 div 60),
                  nat (sod mod 60), nat frac], rest)"
    unfolding T date_pieces_def
    apply (subst scan_Digits[OF ny], simp)
    apply (subst scan_Lit)
    apply (subst scan_Digits[OF nm], simp)
    apply (subst scan_Lit)
    apply (subst scan_Digits[OF nd], simp)
    apply (subst scan_Lit)
    apply (subst scan_Digits[OF nh], simp)
    apply (subst scan_Lit)
    apply (subst scan_Digits[OF nmi], simp)
    apply (subst scan_Lit)
    apply (subst scan_Digits[OF ns], simp)
    apply (subst scan_Lit)
    apply (subst scan_Digits[OF nf], simp)
    apply simp
    done
  then show ?thesis by (simp add: sod_def secs_def frac_def)
qed

lemma Stringtime_Timestring:
  assumes lo64: "- 9223372036854775 \<le> us" and hi64: "us \<le> 9223372036854775"
  shows "Stringtime (Timestring (us * 1000)) = Inr (us * 1000)"
proof -
  have lo: "- 62167219200000000 \<le> us" and hi: "us \<le> 253402300799999999"
    using lo64 hi64 by simp_all
  define secs where "secs = us div 1000000"
  define days where "days = secs div 86400"
  define sod where "sod = secs mod 86400"
  define frac where "frac = us mod 1000000"
  define h where "h = sod div 3600"
  define mi where "mi = sod mod 3600 div 60"
  define sec where "sec = sod mod 60"
  obtain y m d where c: "civil_from_days days = (y, m, d)" by (cases "civil_from_days days") auto
  have s1: "1000000 * secs \<le> us" "us < 1000000 * secs + 1000000"
    unfolding secs_def using div_lo[of 1000000 us] div_hi[of 1000000 us] by simp_all
  have d1: "86400 * days \<le> secs" "secs < 86400 * days + 86400"
    unfolding days_def using div_lo[of 86400 secs] div_hi[of 86400 secs] by simp_all
  have dr: "- 719528 \<le> days" "days \<le> 2932896" using s1 d1 lo hi by linarith+
  note yb = civil_from_days_year[OF c dr]
  note mb = civil_from_days_bounds[OF c]
  have sod: "0 \<le> sod" "sod < 86400" unfolding sod_def by simp_all
  note tod = time_of_day[OF sod, folded h_def mi_def sec_def]
  have frac: "0 \<le> frac" "frac < 1000000" unfolding frac_def by simp_all
  have sc: "scan date_pieces (Timestring (us * 1000)) =
           Some ([nat y, nat m, nat d, nat h, nat mi, nat sec, nat frac], [])"
    using Timestring_scan[OF lo hi c[unfolded days_def secs_def], of "[]"]
    unfolding h_def mi_def sec_def sod_def secs_def frac_def by simp
  have dfc: "days_from_civil y m d = days" using c by (rule days_from_civil_from_days)
  have iy: "int (nat y) = y" using yb(1) by simp
  have im: "int (nat m) = m" using mb(1) by simp
  have id: "int (nat d) = d" using mb(3) by simp
  have ih: "int (nat h) = h" using tod(1) by simp
  have imi: "int (nat mi) = mi" using tod(3) by simp
  have isec: "int (nat sec) = sec" using tod(5) by simp
  have ifr: "int (nat frac) = frac" using frac(1) by simp
  have rm: "1 \<le> nat m" "nat m \<le> 12" using mb(1,2) by simp_all
  have rd: "1 \<le> nat d" "nat d \<le> 31" using mb(3,4) by simp_all
  have rh: "nat h < 24" using tod(1,2) by simp
  have rmi: "nat mi < 60" using tod(3,4) by simp
  have rs: "nat sec < 60" using tod(5,6) by simp
  have "days * 86400 + sod = secs" unfolding days_def sod_def by simp
  then have "days * 86400 + h * 3600 + mi * 60 + sec = secs"
    using tod(7) by simp
  moreover have "secs * 1000000 + frac = us" unfolding secs_def frac_def by simp
  ultimately have v: "(((days * 86400 + h * 3600 + mi * 60 + sec) * 1000000) + frac) * 1000 = us * 1000"
    by simp
  have w: "wrap64 (us * 1000) = us * 1000" using lo64 hi64 by (rule wrap64_us)
  have ct: "civil_time (nat y) (nat m) (nat d) (nat h) (nat mi) (nat sec) (nat frac) = Inr (us * 1000)"
    unfolding civil_time_def iy im id ih imi isec ifr dfc c v w using rm rd rh rmi rs by simp
  show ?thesis
    unfolding Stringtime_def sc by (simp add: ct)
qed

lemma length_Timestring:
  assumes lo: "- 62167219200000000 \<le> us" and hi: "us \<le> 253402300799999999"
  shows "scan date_pieces (Timestring (us * 1000) @ rest) \<noteq> None"
    and "\<And>vs r. scan date_pieces (Timestring (us * 1000) @ rest) = Some (vs, r) \<Longrightarrow> r = rest"
proof -
  obtain y m d where c: "civil_from_days (us div 1000000 div 86400) = (y, m, d)"
    by (cases "civil_from_days (us div 1000000 div 86400)") auto
  note s = Timestring_scan[OF lo hi c, of rest]
  show "scan date_pieces (Timestring (us * 1000) @ rest) \<noteq> None" using s by simp
  show "\<And>vs r. scan date_pieces (Timestring (us * 1000) @ rest) = Some (vs, r) \<Longrightarrow> r = rest"
    using s by simp
qed

lemma regex_match_generated:
  assumes lo: "- 62167219200000000 \<le> us" and hi: "us \<le> 253402300799999999"
  shows "regex_match kNormal (Timestring (us * 1000) @ ''-v'' @ dec n)
         = Some (Timestring (us * 1000), dec n)"
proof -
  obtain vs r where s: "scan date_pieces (Timestring (us * 1000) @ ''-v'' @ dec n) = Some (vs, r)"
    using length_Timestring(1)[OF lo hi, of "''-v'' @ dec n"] by auto
  have r: "r = ''-v'' @ dec n" using length_Timestring(2)[OF lo hi s] .
  have all: "\<forall>x\<in>set (dec n). is_digit x"
    using dec_digits[of n] by (simp add: list_all_iff)
  have tw: "takeWhile is_digit (dec n) = dec n" "dropWhile is_digit (dec n) = []"
    using all by auto
  show ?thesis
    unfolding regex_match_def s r using all by (simp add: tw dec_not_Nil)
qed

lemma ParseDumpName_generated:
  assumes lo64: "- 9223372036854775 \<le> t" and hi64: "t \<le> 9223372036854775"
  shows "ParseDumpName (Timestring (t * 1000) @ ''-v'' @ dec (unat (v :: 64 word)))
         = Some \<lparr>filename = Timestring (t * 1000) @ ''-v'' @ dec (unat v),
                 update_time = t, format_version = v\<rparr>"
proof -
  have lo: "- 62167219200000000 \<le> t" and hi: "t \<le> 253402300799999999"
    using lo64 hi64 by simp_all
  show ?thesis
    unfolding ParseDumpName_def regex_match_generated[OF lo hi]
    by (simp add: Stringtime_Timestring[OF lo64 hi64] FromString_dec Round_exact)
qed

lemma ParseDumpName_bounds:
  assumes "ParseDumpName n = Some p"
  shows "- 9223372036854776 \<le> ParsedDumpName.update_time p"
    and "ParsedDumpName.update_time p \<le> 9223372036854776"
proof -
  obtain g1 ns where st: "Stringtime g1 = Inr ns" and p: "ParsedDumpName.update_time p = Round ns"
    using assms by (auto simp: ParseDumpName_def split: option.splits sum.splits prod.splits)
  obtain x where ns: "ns = wrap64 x"
    using st by (auto simp: Stringtime_def civil_time_def split: option.splits prod.splits if_splits)
  show "- 9223372036854776 \<le> ParsedDumpName.update_time p"
    unfolding p ns by (rule Round_wrap64_bounds)
  show "ParsedDumpName.update_time p \<le> 9223372036854776"
    unfolding p ns by (rule Round_wrap64_bounds)
qed

lemma ParseDumpName_lower:
  assumes "ParseDumpName n = Some p"
  shows "TimePoint_min \<le> ParsedDumpName.update_time p"
  using ParseDumpName_bounds(1)[OF assms] by (simp add: TimePoint_min_def)

lemma GenerateDumpPath_name:
  "GenerateDumpPath t config =
     FilenameToPath (Timestring (wrap64 (t * 1000)) @ ''-v'' @ dec (unat (dump_format_version config))) config"
  by (simp add: GenerateDumpPath_def FilenameToPath_def)

lemma GenerateDumpPath_inj:
  assumes "- 9223372036854775 \<le> t" "t \<le> 9223372036854775"
    and "- 9223372036854775 \<le> t'" "t' \<le> 9223372036854775"
    and "GenerateDumpPath t config = GenerateDumpPath t' config"
  shows "t = t'"
proof -
  define v where "v = dump_format_version config"
  have "Timestring (t * 1000) @ ''-v'' @ dec (unat v) = Timestring (t' * 1000) @ ''-v'' @ dec (unat v)"
    using assms(5) unfolding GenerateDumpPath_name v_def FilenameToPath_def
      wrap64_us[OF assms(1,2)] wrap64_us[OF assms(3,4)] by simp
  then have "ParseDumpName (Timestring (t * 1000) @ ''-v'' @ dec (unat v))
             = ParseDumpName (Timestring (t' * 1000) @ ''-v'' @ dec (unat v))" by simp
  then show ?thesis
    unfolding ParseDumpName_generated[OF assms(1,2)] ParseDumpName_generated[OF assms(3,4)]
    by simp
qed

lemma ParseDumpName_zeros:
  assumes lo64: "- 9223372036854775 \<le> t" and hi64: "t \<le> 9223372036854775"
  shows "ParseDumpName (Timestring (t * 1000) @ ''-v'' @ replicate k CHR ''0'' @ dec (unat (v :: 64 word)))
         = Some \<lparr>filename = Timestring (t * 1000) @ ''-v'' @ replicate k CHR ''0'' @ dec (unat v),
                 update_time = t, format_version = v\<rparr>"
proof -
  have lo: "- 62167219200000000 \<le> t" and hi: "t \<le> 253402300799999999"
    using lo64 hi64 by simp_all
  define ds where "ds = replicate k CHR ''0'' @ dec (unat v)"
  obtain vs r where s: "scan date_pieces (Timestring (t * 1000) @ ''-v'' @ ds) = Some (vs, r)"
    using length_Timestring(1)[OF lo hi, of "''-v'' @ ds"] by auto
  have r: "r = ''-v'' @ ds" using length_Timestring(2)[OF lo hi s] .
  have all: "\<forall>x\<in>set ds. is_digit x"
    using dec_digits[of "unat v"] by (auto simp: list_all_iff ds_def is_digit_zero)
  have tw: "takeWhile is_digit ds = ds" "dropWhile is_digit ds = []"
    using all by auto
  have ne: "ds \<noteq> []" by (simp add: ds_def dec_not_Nil)
  have rm: "regex_match kNormal (Timestring (t * 1000) @ ''-v'' @ ds) = Some (Timestring (t * 1000), ds)"
    unfolding regex_match_def s r using all by (simp add: tw ne)
  have "unat v < 2 ^ 64" using unsigned_less[of v] by simp
  then have fs: "FromString ds = Inr v"
    using all ne by (simp add: FromString_def list_all_iff) (simp add: ds_def num_zeros num_dec)
  show ?thesis
    unfolding ds_def[symmetric] ParseDumpName_def rm
    by (simp add: Stringtime_Timestring[OF lo64 hi64] fs Round_exact)
qed

subsection \<open>Directory listings\<close>

lemma FilenameToPath_inj [simp]: "FilenameToPath a (c::CacheConfigStatic) = FilenameToPath b c \<longleftrightarrow> a = b"
  by (simp add: FilenameToPath_def)

lemma ParseDumpName_filename: "ParseDumpName n = Some p \<Longrightarrow> filename p = n"
  by (auto simp: ParseDumpName_def split: option.splits sum.splits prod.splits)

lemma regex_match_exclusive: "regex_match kNormal n = Some g \<Longrightarrow> regex_match kTmp n = None"
proof -
  assume a: "regex_match kNormal n = Some g"
  have ne: "xs = [] \<Longrightarrow> xs \<noteq> ''.tmp''" for xs :: string by simp
  show ?thesis
    using a unfolding regex_match_def
    by (auto split: option.splits prod.splits if_splits simp del: dropWhile_eq_Nil_conv simp add: ne)
qed

lemma ParseDumpName_not_tmp: "ParseDumpName n = Some p \<Longrightarrow> regex_match kTmp n = None"
  by (auto simp: ParseDumpName_def dest: regex_match_exclusive split: option.splits)

lemma child_name_FilenameToPath: "child_name (dump_directory (c::CacheConfigStatic)) p = Some n \<Longrightarrow> p = FilenameToPath n c"
  unfolding child_name_def FilenameToPath_def
  by (auto split: if_splits) (metis append_take_drop_id append.assoc append_Cons append_Nil)

lemma list_directory_Nil [simp]: "list_directory dir [] = []"
  by (simp add: list_directory_def)

lemma list_directory_Cons [simp]:
  "list_directory dir (e # fs) =
     (case child_name dir (fst e) of None \<Rightarrow> list_directory dir fs
      | Some n \<Rightarrow> (n, snd e) # list_directory dir fs)"
  by (simp add: list_directory_def split: option.splits)

lemma list_directory_mem:
  "(n, f) \<in> set (list_directory (dump_directory (c::CacheConfigStatic)) fs) \<Longrightarrow> (FilenameToPath n c, f) \<in> set fs"
  by (induction fs) (auto split: option.splits dest!: child_name_FilenameToPath)

lemma list_directory_filter:
  "list_directory (dump_directory (c::CacheConfigStatic)) (filter (\<lambda>e. P (fst e)) fs)
   = filter (\<lambda>e. P (FilenameToPath (fst e) c)) (list_directory (dump_directory c) fs)"
  by (induction fs) (auto split: option.splits dest!: child_name_FilenameToPath)

lemma list_directory_distinct:
  "distinct (map fst fs) \<Longrightarrow> distinct (map fst (list_directory (dump_directory (c::CacheConfigStatic)) fs))"
proof (induction fs)
  case Nil
  then show ?case by simp
next
  case (Cons e fs)
  show ?case
  proof (cases "child_name (dump_directory c) (fst e)")
    case None
    with Cons show ?thesis by simp
  next
    case (Some n)
    have "n \<notin> fst ` set (list_directory (dump_directory c) fs)"
    proof
      assume "n \<in> fst ` set (list_directory (dump_directory c) fs)"
      then obtain f where "(n, f) \<in> set (list_directory (dump_directory c) fs)" by auto
      then have "(FilenameToPath n c, f) \<in> set fs" by (rule list_directory_mem)
      moreover have "fst e = FilenameToPath n c" using Some by (rule child_name_FilenameToPath)
      ultimately show False using Cons.prems by force
    qed
    with Cons Some show ?thesis by simp
  qed
qed

lemma list_directory_map_of:
  "distinct (map fst fs) \<Longrightarrow> (n, f) \<in> set (list_directory (dump_directory (c::CacheConfigStatic)) fs)
   \<Longrightarrow> map_of fs (FilenameToPath n c) = Some f"
  by (simp add: list_directory_mem)

subsection \<open>The loops of the cleanup\<close>

lemma cleanup_body_eq:
  "cleanup_body config m flt e fs dumps =
     (if doomed config m e
      then (case remove_fault flt (FilenameToPath (fst e) config) of
              Some ex \<Rightarrow> (fs, Inl ex)
            | None \<Rightarrow> (unlink (FilenameToPath (fst e) config) fs, Inr dumps))
      else (fs, Inr (dumps @ (case retained config m e of None \<Rightarrow> [] | Some d \<Rightarrow> [d]))))"
  by (cases e) (auto simp: cleanup_body_def doomed_def retained_def remove_def split: option.splits)

lemma unlink_filter: "unlink p (filter (\<lambda>x. fst x \<notin> S) fs) = filter (\<lambda>x. fst x \<notin> insert p S) fs"
  by (auto simp: unlink_def intro: filter_cong)

lemma filter_unlink: "filter (\<lambda>x. fst x \<notin> S) (unlink p fs) = filter (\<lambda>x. fst x \<notin> insert p S) fs"
  by (auto simp: unlink_def intro: filter_cong)

lemma cleanup_loop_ok:
  "cleanup_loop config m flt (map Inr es) fs dumps = (fs', Inr dumps') \<Longrightarrow>
   fs' = filter (\<lambda>x. fst x \<notin> (\<lambda>e. FilenameToPath (fst e) config) ` {e \<in> set es. doomed config m e}) fs
   \<and> dumps' = dumps @ List.map_filter (retained config m) es"
proof (induction es arbitrary: fs dumps)
  case Nil
  then show ?case by simp
next
  case (Cons e es)
  show ?case
  proof (cases "doomed config m e")
    case True
    then have l: "cleanup_loop config m flt (map Inr es) (unlink (FilenameToPath (fst e) config) fs) dumps
                  = (fs', Inr dumps')"
      using Cons.prems by (simp add: cleanup_body_eq split: option.splits)
    have ret: "retained config m e = None"
      using True by (auto simp: doomed_def retained_def split: option.splits)
    have S: "(\<lambda>e. FilenameToPath (fst e) config) ` {x \<in> set (e # es). doomed config m x}
             = insert (FilenameToPath (fst e) config)
                 ((\<lambda>e. FilenameToPath (fst e) config) ` {x \<in> set es. doomed config m x})"
      using True by auto
    from Cons.IH[OF l] show ?thesis
      unfolding S by (simp add: ret filter_unlink)
  next
    case False
    then have l: "cleanup_loop config m flt (map Inr es) fs
                    (dumps @ (case retained config m e of None \<Rightarrow> [] | Some d \<Rightarrow> [d])) = (fs', Inr dumps')"
      using Cons.prems by (simp add: cleanup_body_eq)
    have S: "(\<lambda>e. FilenameToPath (fst e) config) ` {x \<in> set (e # es). doomed config m x}
             = (\<lambda>e. FilenameToPath (fst e) config) ` {x \<in> set es. doomed config m x}"
      using False by auto
    from Cons.IH[OF l] show ?thesis
      unfolding S by (simp split: option.splits)
  qed
qed

lemma cleanup_loop_raise:
  "\<exists>fs' e. cleanup_loop config m flt (map Inr es @ [Inl ex]) fs dumps = (fs', Inl e)"
proof (induction es arbitrary: fs dumps)
  case Nil
  then show ?case by simp
next
  case (Cons e es)
  show ?case
    using Cons.IH by (simp add: cleanup_body_eq split: option.splits)
qed

lemma cleanup_body_frame:
  "\<not> (doomed config m e \<and> FilenameToPath (fst e) config = q) \<Longrightarrow>
   map_of (fst (cleanup_body config m flt e fs dumps)) q = map_of fs q"
  by (auto simp: cleanup_body_eq map_of_unlink split: option.splits)

lemma cleanup_loop_frame:
  "(\<And>e. Inr e \<in> set es \<Longrightarrow> doomed config m e \<Longrightarrow> FilenameToPath (fst e) config \<noteq> q) \<Longrightarrow>
   map_of (fst (cleanup_loop config m flt es fs dumps)) q = map_of fs q"
proof (induction es arbitrary: fs dumps)
  case Nil
  then show ?case by simp
next
  case (Cons x es)
  show ?case
  proof (cases x)
    case (Inl ex)
    then show ?thesis by simp
  next
    case (Inr e)
    have b: "map_of (fst (cleanup_body config m flt e fs dumps)) q = map_of fs q"
      using Cons.prems[of e] Inr by (intro cleanup_body_frame) auto
    have l: "map_of (fst (cleanup_loop config m flt es fs1 d1)) q = map_of fs1 q" for fs1 d1
      using Cons.prems by (intro Cons.IH) simp_all
    show ?thesis
    proof (cases "cleanup_body config m flt e fs dumps")
      case (Pair fs1 r)
      with b l Inr show ?thesis by (cases r) simp_all
    qed
  qed
qed

lemma remove_excess_ok:
  "remove_excess config flt ds fs = (fs', None) \<Longrightarrow>
   fs' = filter (\<lambda>x. fst x \<notin> (\<lambda>d. FilenameToPath (filename d) config) ` set ds) fs"
proof (induction ds arbitrary: fs)
  case Nil
  then show ?case by simp
next
  case (Cons d ds)
  then have l: "remove_excess config flt ds (unlink (FilenameToPath (filename d) config) fs) = (fs', None)"
    by (simp add: remove_def split: option.splits)
  from Cons.IH[OF l] show ?case
    by (simp add: filter_unlink)
qed

lemma remove_excess_frame:
  "(\<And>d. d \<in> set ds \<Longrightarrow> FilenameToPath (filename d) config \<noteq> q) \<Longrightarrow>
   map_of (fst (remove_excess config flt ds fs)) q = map_of fs q"
proof (induction ds arbitrary: fs)
  case Nil
  then show ?case by simp
next
  case (Cons d ds)
  have ne: "q \<noteq> FilenameToPath (filename d) config" using Cons.prems[of d] by auto
  have l: "map_of (fst (remove_excess config flt ds fs1)) q = map_of fs1 q" for fs1
    using Cons.prems by (intro Cons.IH) simp_all
  show ?case
    using ne l by (simp add: remove_def map_of_unlink split: option.splits)
qed

lemma cleanup_loop_dumps:
  "cleanup_loop config m flt es fs dumps = (fs', Inr dumps') \<Longrightarrow> d \<in> set dumps' \<Longrightarrow>
   d \<in> set dumps \<or> (\<exists>e. Inr e \<in> set es \<and> retained config m e = Some d)"
proof (induction es arbitrary: fs dumps)
  case Nil
  then show ?case by simp
next
  case (Cons x es)
  show ?case
  proof (cases x)
    case (Inl ex)
    with Cons.prems show ?thesis by simp
  next
    case (Inr e)
    obtain fs1 d1 where b: "cleanup_body config m flt e fs dumps = (fs1, Inr d1)"
      and l: "cleanup_loop config m flt es fs1 d1 = (fs', Inr dumps')"
      using Cons.prems(1) Inr by (auto split: prod.splits sum.splits)
    have d1: "d1 = dumps \<or> (\<exists>y. retained config m e = Some y \<and> d1 = dumps @ [y])"
      using b by (auto simp: cleanup_body_eq split: if_splits option.splits)
    from Cons.IH[OF l Cons.prems(2)] have "d \<in> set d1 \<or> (\<exists>e. Inr e \<in> set es \<and> retained config m e = Some d)" .
    then show ?thesis
    proof
      assume "d \<in> set d1"
      with d1 have "d \<in> set dumps \<or> retained config m e = Some d" by auto
      then show ?thesis using Inr by (metis list.set_intros(1))
    next
      assume "\<exists>e. Inr e \<in> set es \<and> retained config m e = Some d"
      then show ?thesis by (metis list.set_intros(2))
    qed
  qed
qed

lemma unlink_distinct: "distinct (map fst fs) \<Longrightarrow> distinct (map fst (filter P fs))"
  by (simp add: distinct_map_filter)

lemma not_doomed_regular:
  assumes "\<not> doomed config m (n, f)" "status f = regular_file"
  shows "regex_match kTmp n = None"
    and "ParseDumpName n = Some d \<Longrightarrow> \<not> format_version d < dump_format_version config"
    and "ParseDumpName n = Some d \<Longrightarrow> \<not> ParsedDumpName.update_time d < m"
    and "ParseDumpName n = Some d \<Longrightarrow> format_version d = dump_format_version config
         \<Longrightarrow> retained config m (n, f) = Some d"
  using assms by (cases "regex_match kTmp n"; simp add: doomed_def retained_def)+

lemma retained_Some:
  "retained config m e = Some d \<Longrightarrow>
   ParseDumpName (fst e) = Some d \<and> format_version d = dump_format_version config \<and> filename d = fst e"
  by (auto simp: retained_def ParseDumpName_filename split: if_splits option.splits)

lemma CleanupBlocking_ok:
  assumes ok: "CleanupBlocking config now flt fs = (fs', None)"
  obtains dumps where
    "dumps = List.map_filter (retained config (MinAcceptableUpdateTime config now))
               (list_directory (dump_directory config) fs)"
    "fs' = filter (\<lambda>x. fst x \<notin> (\<lambda>e. FilenameToPath (fst e) config) `
                     {e \<in> set (list_directory (dump_directory config) fs).
                        doomed config (MinAcceptableUpdateTime config now) e}
                   \<and> fst x \<notin> (\<lambda>d. FilenameToPath (filename d) config) `
                       set (drop (max_dump_count config)
                              (sort_key (\<lambda>d. - ParsedDumpName.update_time d) dumps))) fs"
proof -
  define m where "m = MinAcceptableUpdateTime config now"
  define es where "es = list_directory (dump_directory config) fs"
  have it: "directory_iterator flt (dump_directory config) fs = map Inr es"
  proof (cases "iterate_fault flt (dump_directory config)")
    case None
    then show ?thesis by (simp add: directory_iterator_def es_def)
  next
    case (Some a)
    obtain k ex where a: "a = (k, ex)" by (cases a)
    obtain fs1 e where "cleanup_loop config m flt (map Inr (take k es) @ [Inl ex]) fs [] = (fs1, Inl e)"
      using cleanup_loop_raise by blast
    with ok Some a have False
      by (simp add: CleanupBlocking_def directory_iterator_def es_def m_def)
    then show ?thesis ..
  qed
  obtain fs1 r where l: "cleanup_loop config m flt (map Inr es) fs [] = (fs1, r)"
    by (cases "cleanup_loop config m flt (map Inr es) fs []")
  from ok it l obtain dumps where r: "r = Inr dumps"
    and x: "remove_excess config flt
              (drop (max_dump_count config) (sort_key (\<lambda>d. - ParsedDumpName.update_time d) dumps)) fs1
            = (fs', None)"
    by (cases r) (simp_all add: CleanupBlocking_def m_def)
  from cleanup_loop_ok[OF l[unfolded r]] have
    fs1: "fs1 = filter (\<lambda>x. fst x \<notin> (\<lambda>e. FilenameToPath (fst e) config) ` {e \<in> set es. doomed config m e}) fs"
    and d: "dumps = List.map_filter (retained config m) es" by simp_all
  from remove_excess_ok[OF x] fs1 have
    "fs' = filter (\<lambda>x. fst x \<notin> (\<lambda>e. FilenameToPath (fst e) config) ` {e \<in> set es. doomed config m e}
                   \<and> fst x \<notin> (\<lambda>d. FilenameToPath (filename d) config) `
                       set (drop (max_dump_count config)
                              (sort_key (\<lambda>d. - ParsedDumpName.update_time d) dumps))) fs"
    by (simp add: conj_commute)
  with d show ?thesis using that unfolding m_def es_def by blast
qed

lemma Cleanup_survivor:
  assumes ok: "CleanupBlocking config now flt fs = (fs', None)"
    and mem: "(n, f) \<in> set (list_directory (dump_directory config) fs')"
  shows "(n, f) \<in> set (list_directory (dump_directory config) fs)"
    and "\<not> doomed config (MinAcceptableUpdateTime config now) (n, f)"
    and "retained config (MinAcceptableUpdateTime config now) (n, f) = Some d \<Longrightarrow>
         d \<in> set (take (max_dump_count config)
                    (sort_key (\<lambda>d. - ParsedDumpName.update_time d)
                       (List.map_filter (retained config (MinAcceptableUpdateTime config now))
                          (list_directory (dump_directory config) fs))))"
proof -
  define m where "m = MinAcceptableUpdateTime config now"
  define es where "es = list_directory (dump_directory config) fs"
  define D where "D = (\<lambda>e. FilenameToPath (fst e) config) ` {e \<in> set es. doomed config m e}"
  from ok obtain dumps where dumps: "dumps = List.map_filter (retained config m) es"
    and fs': "fs' = filter (\<lambda>x. fst x \<notin> D
                   \<and> fst x \<notin> (\<lambda>d. FilenameToPath (filename d) config) `
                       set (drop (max_dump_count config)
                              (sort_key (\<lambda>d. - ParsedDumpName.update_time d) dumps))) fs"
    unfolding m_def es_def D_def by (rule CleanupBlocking_ok)
  define X where "X = (\<lambda>d. FilenameToPath (filename d) config) `
                       set (drop (max_dump_count config)
                              (sort_key (\<lambda>d. - ParsedDumpName.update_time d) dumps))"
  have "list_directory (dump_directory config) fs'
        = filter (\<lambda>e. FilenameToPath (fst e) config \<notin> D \<and> FilenameToPath (fst e) config \<notin> X) es"
    unfolding fs' X_def[symmetric] es_def
    by (rule list_directory_filter[where P = "\<lambda>p. p \<notin> D \<and> p \<notin> X"])
  with mem have in_es: "(n, f) \<in> set es" and nD: "FilenameToPath n config \<notin> D"
    and nX: "FilenameToPath n config \<notin> X" by simp_all
  show "(n, f) \<in> set (list_directory (dump_directory config) fs)"
    using in_es by (simp add: es_def)
  show nd: "\<not> doomed config (MinAcceptableUpdateTime config now) (n, f)"
    using nD in_es unfolding D_def m_def by force
  show "d \<in> set (take (max_dump_count config)
                    (sort_key (\<lambda>d. - ParsedDumpName.update_time d)
                       (List.map_filter (retained config (MinAcceptableUpdateTime config now))
                          (list_directory (dump_directory config) fs))))"
    if r: "retained config (MinAcceptableUpdateTime config now) (n, f) = Some d"
  proof -
    have "d \<in> set dumps"
      using in_es r unfolding dumps m_def by (force simp: List.map_filter_def)
    then have "d \<in> set (sort_key (\<lambda>d. - ParsedDumpName.update_time d) dumps)" by simp
    then have "d \<in> set (take (max_dump_count config) (sort_key (\<lambda>d. - ParsedDumpName.update_time d) dumps))
               \<or> d \<in> set (drop (max_dump_count config) (sort_key (\<lambda>d. - ParsedDumpName.update_time d) dumps))"
      by (metis append_take_drop_id set_append Un_iff)
    moreover have "filename d = n" using retained_Some[OF r] by simp
    then have "d \<notin> set (drop (max_dump_count config) (sort_key (\<lambda>d. - ParsedDumpName.update_time d) dumps))"
      using nX unfolding X_def by force
    ultimately show ?thesis unfolding dumps m_def es_def by simp
  qed
qed


lemma map_of_filter_fst:
  "map_of (filter (\<lambda>x. P (fst x)) fs) q = (if P q then map_of fs q else None)"
  by (induction fs) auto

lemma cleanup_loop_append:
  "cleanup_loop config m flt (xs @ ys) fs dumps =
     (case cleanup_loop config m flt xs fs dumps of
        (fs1, Inl ex) \<Rightarrow> (fs1, Inl ex)
      | (fs1, Inr d1) \<Rightarrow> cleanup_loop config m flt ys fs1 d1)"
proof (induction xs arbitrary: fs dumps)
  case Nil
  then show ?case by simp
next
  case (Cons x xs)
  show ?case
  proof (cases x)
    case (Inl ex)
    then show ?thesis by simp
  next
    case (Inr e)
    then show ?thesis
      using Cons.IH by (simp split: prod.splits sum.splits)
  qed
qed

lemma cleanup_loop_no_fault:
  "(\<And>e. e \<in> set es \<Longrightarrow> doomed config m e \<Longrightarrow> remove_fault flt (FilenameToPath (fst e) config) = None)
   \<Longrightarrow> \<exists>fs1 d1. cleanup_loop config m flt (map Inr es) fs dumps = (fs1, Inr d1)"
proof (induction es arbitrary: fs dumps)
  case Nil
  then show ?case by simp
next
  case (Cons e es)
  have l: "\<exists>fs1 d1. cleanup_loop config m flt (map Inr es) fs' dumps' = (fs1, Inr d1)" for fs' dumps'
    using Cons.prems by (intro Cons.IH) simp_all
  show ?case
    using Cons.prems[of e] l by (simp add: cleanup_body_eq)
qed

lemma remove_excess_no_fault:
  "(\<And>d. d \<in> set ds \<Longrightarrow> remove_fault flt (FilenameToPath (filename d) config) = None)
   \<Longrightarrow> snd (remove_excess config flt ds fs) = None"
proof (induction ds arbitrary: fs)
  case Nil
  then show ?case by simp
next
  case (Cons d ds)
  have l: "snd (remove_excess config flt ds fs') = None" for fs'
    using Cons.prems by (intro Cons.IH) simp_all
  show ?case
    using Cons.prems[of d] l by (simp add: remove_def)
qed

lemma CleanupBlocking_no_faults: "snd (CleanupBlocking config now no_faults fs) = None"
proof -
  obtain fs1 d1 where l: "cleanup_loop config (MinAcceptableUpdateTime config now) no_faults
        (map Inr (list_directory (dump_directory config) fs)) fs [] = (fs1, Inr d1)"
    using cleanup_loop_no_fault[of "list_directory (dump_directory config) fs" config
        "MinAcceptableUpdateTime config now" no_faults fs "[]"]
    by (auto simp: no_faults_def)
  have it: "directory_iterator no_faults (dump_directory config) fs
            = map Inr (list_directory (dump_directory config) fs)"
    by (simp add: directory_iterator_def no_faults_def)
  have "snd (remove_excess config no_faults ds fs1) = None" for ds
    by (rule remove_excess_no_fault) (simp add: no_faults_def)
  then show ?thesis
    by (simp add: CleanupBlocking_def it l)
qed


subsection \<open>The removals of the cleanup, in their order\<close>

lemma cleanup_loop_run:
  assumes "\<And>e. e \<in> set es \<Longrightarrow> doomed config m e \<Longrightarrow>
             remove_fault flt (FilenameToPath (fst e) config) = None"
  shows "cleanup_loop config m flt (map Inr es) fs dumps =
           (filter (\<lambda>x. fst x \<notin> set (map (\<lambda>e. FilenameToPath (fst e) config)
                                         (filter (doomed config m) es))) fs,
            Inr (dumps @ List.map_filter (retained config m) es))"
proof -
  obtain fs1 d1 where l: "cleanup_loop config m flt (map Inr es) fs dumps = (fs1, Inr d1)"
    using cleanup_loop_no_fault[of es config m flt fs dumps] assms by auto
  have S: "set (map (\<lambda>e. FilenameToPath (fst e) config) (filter (doomed config m) es))
           = (\<lambda>e. FilenameToPath (fst e) config) ` {e \<in> set es. doomed config m e}"
    by auto
  show ?thesis
    unfolding l S using cleanup_loop_ok[OF l] by simp
qed


lemma remove_excess_run:
  "(\<And>d. d \<in> set ds \<Longrightarrow> remove_fault flt (FilenameToPath (filename d) config) = None) \<Longrightarrow>
   remove_excess config flt ds fs =
     (filter (\<lambda>x. fst x \<notin> set (map (\<lambda>d. FilenameToPath (filename d) config) ds)) fs, None)"
proof (induction ds arbitrary: fs)
  case Nil
  then show ?case by simp
next
  case (Cons d ds)
  have "remove_excess config flt ds fs1 =
     (filter (\<lambda>x. fst x \<notin> set (map (\<lambda>d. FilenameToPath (filename d) config) ds)) fs1, None)" for fs1
    using Cons.prems by (intro Cons.IH) simp
  then show ?case
    using Cons.prems[of d] by (simp add: remove_def filter_unlink)
qed


lemma directory_iterator_ok:
  "iterate_fault flt dir = None \<Longrightarrow> directory_iterator flt dir fs = map Inr (list_directory dir fs)"
  by (simp add: directory_iterator_def)

lemma CleanupBlocking_run:
  assumes it: "iterate_fault flt (dump_directory config) = None"
    and ok: "\<And>q. q \<in> set (removals config now fs) \<Longrightarrow> remove_fault flt q = None"
  shows "CleanupBlocking config now flt fs
         = (filter (\<lambda>x. fst x \<notin> set (removals config now fs)) fs, None)"
proof -
  define m where "m = MinAcceptableUpdateTime config now"
  define es where "es = list_directory (dump_directory config) fs"
  define D where "D = map (\<lambda>e. FilenameToPath (fst e) config) (filter (doomed config m) es)"
  define ds where "ds = drop (max_dump_count config)
              (sort_key (\<lambda>d. - ParsedDumpName.update_time d) (List.map_filter (retained config m) es))"
  define X where "X = map (\<lambda>d. FilenameToPath (filename d) config) ds"
  have plan: "removals config now fs = D @ X"
    by (simp add: removals_def Let_def D_def X_def ds_def m_def es_def)
  have l: "cleanup_loop config m flt (map Inr es) fs [] =
             (filter (\<lambda>x. fst x \<notin> set D) fs, Inr ([] @ List.map_filter (retained config m) es))"
    unfolding D_def
  proof (rule cleanup_loop_run)
    fix e assume "e \<in> set es" "doomed config m e"
    then have "FilenameToPath (fst e) config \<in> set D" unfolding D_def by auto
    then show "remove_fault flt (FilenameToPath (fst e) config) = None"
      using ok unfolding plan by simp
  qed
  have x: "remove_excess config flt ds fs1 = (filter (\<lambda>x. fst x \<notin> set X) fs1, None)" for fs1
    unfolding X_def
  proof (rule remove_excess_run)
    fix d assume "d \<in> set ds"
    then have "FilenameToPath (filename d) config \<in> set X" unfolding X_def by auto
    then show "remove_fault flt (FilenameToPath (filename d) config) = None"
      using ok unfolding plan by simp
  qed
  have f: "filter (\<lambda>x. fst x \<notin> set X) (filter (\<lambda>x. fst x \<notin> set D) fs)
           = filter (\<lambda>x. fst x \<notin> set (D @ X)) fs"
    by (auto intro: filter_cong)
  show ?thesis
    unfolding plan f[symmetric]
    by (simp add: CleanupBlocking_def directory_iterator_ok[OF it] m_def[symmetric]
          es_def[symmetric] l ds_def[symmetric] x)
qed





subsection \<open>The loop of the selection\<close>

lemma latest_body_eq:
  "latest_body config m e best =
     (case candidate config m e of None \<Rightarrow> best
      | Some d \<Rightarrow> (case best of None \<Rightarrow> Some d
                   | Some b \<Rightarrow> if ParsedDumpName.update_time b < ParsedDumpName.update_time d
                               then Some d else best))"
  by (cases e) (auto simp: latest_body_def candidate_def split: option.splits)

lemma latest_loop_result:
  "latest_loop config m (map Inr es) best = r \<Longrightarrow>
   (r = None \<longleftrightarrow> best = None \<and> (\<forall>e\<in>set es. candidate config m e = None)) \<and>
   (\<forall>d. r = Some d \<longrightarrow>
      (best = Some d \<or> (\<exists>e\<in>set es. candidate config m e = Some d)) \<and>
      (\<forall>b. best = Some b \<longrightarrow> ParsedDumpName.update_time b \<le> ParsedDumpName.update_time d) \<and>
      (\<forall>e\<in>set es. \<forall>c. candidate config m e = Some c \<longrightarrow>
          ParsedDumpName.update_time c \<le> ParsedDumpName.update_time d))"
proof (induction es arbitrary: best)
  case Nil
  then show ?case by auto
next
  case (Cons e es)
  define best' where "best' = latest_body config m e best"
  have l: "latest_loop config m (map Inr es) best' = r"
    using Cons.prems by (simp add: best'_def)
  note IH = Cons.IH[OF l]
  show ?case
  proof (cases "candidate config m e")
    case None
    then have "best' = best" by (simp add: best'_def latest_body_eq)
    with IH None show ?thesis by auto
  next
    case (Some c)
    show ?thesis
    proof (cases best)
      case None
      then have "best' = Some c" using Some by (simp add: best'_def latest_body_eq)
      with IH Some None show ?thesis by auto
    next
      case b: (Some b)
      show ?thesis
      proof (cases "ParsedDumpName.update_time b < ParsedDumpName.update_time c")
        case True
        then have "best' = Some c" using Some b by (simp add: best'_def latest_body_eq)
        with IH Some b True show ?thesis by fastforce
      next
        case False
        then have "best' = best" using Some b by (simp add: best'_def latest_body_eq)
        with IH Some b False show ?thesis by fastforce
      qed
    qed
  qed
qed

lemma candidate_Some:
  "candidate config m e = Some d \<longleftrightarrow>
     status (snd e) = regular_file \<and> ParseDumpName (fst e) = Some d \<and>
     format_version d = dump_format_version config \<and>
     (max_dump_age config \<noteq> None \<longrightarrow> m \<le> ParsedDumpName.update_time d)"
  by (auto simp: candidate_def split: option.splits)

lemma candidate_exact:
  assumes rep: "\<forall>age. max_dump_age config = Some age \<longrightarrow>
                  - (2 ^ 63) \<le> Round now - age * 1000 \<and> Round now - age * 1000 < 2 ^ 63"
  shows "candidate config (MinAcceptableUpdateTime config now) e = Some d \<longleftrightarrow>
     status (snd e) = regular_file \<and> ParseDumpName (fst e) = Some d \<and>
     format_version d = dump_format_version config \<and>
     (\<forall>age. max_dump_age config = Some age \<longrightarrow> Round now - age * 1000 \<le> ParsedDumpName.update_time d)"
proof (cases "max_dump_age config")
  case None
  then show ?thesis by (simp add: candidate_Some)
next
  case (Some age)
  then have "MinAcceptableUpdateTime config now = Round now - age * 1000"
    using rep by (intro MinAcceptableUpdateTime_exact) simp_all
  then show ?thesis using Some by (simp add: candidate_Some)
qed

lemma GetLatest_no_faults:
  "GetLatestDumpNameBlocking config now no_faults fs =
     map_option filename (latest_loop config (MinAcceptableUpdateTime config now)
        (map Inr (list_directory (dump_directory config) fs)) None)"
  by (simp add: GetLatestDumpNameBlocking_def directory_iterator_def no_faults_def)

lemma ReadLatestDump_loop:
  assumes dist: "distinct (map fst fs)"
  shows "latest_loop config (MinAcceptableUpdateTime config now)
           (map Inr (list_directory (dump_directory config) fs)) None = None \<Longrightarrow>
         ReadLatestDump config now no_faults fs = Inr None"
    and "latest_loop config (MinAcceptableUpdateTime config now)
           (map Inr (list_directory (dump_directory config) fs)) None = Some d \<Longrightarrow>
         \<exists>e \<in> set (list_directory (dump_directory config) fs).
            candidate config (MinAcceptableUpdateTime config now) e = Some d \<and>
            ReadLatestDump config now no_faults fs
              = Inr (Some \<lparr>contents = data (snd e), update_time = ParsedDumpName.update_time d\<rparr>)"
proof -
  define m where "m = MinAcceptableUpdateTime config now"
  define es where "es = list_directory (dump_directory config) fs"
  show "ReadLatestDump config now no_faults fs = Inr None"
    if "latest_loop config (MinAcceptableUpdateTime config now)
           (map Inr (list_directory (dump_directory config) fs)) None = None"
    using that by (simp add: ReadLatestDump_def GetLatest_no_faults)
  show "\<exists>e \<in> set (list_directory (dump_directory config) fs).
            candidate config (MinAcceptableUpdateTime config now) e = Some d \<and>
            ReadLatestDump config now no_faults fs
              = Inr (Some \<lparr>contents = data (snd e), update_time = ParsedDumpName.update_time d\<rparr>)"
    if r: "latest_loop config (MinAcceptableUpdateTime config now)
           (map Inr (list_directory (dump_directory config) fs)) None = Some d"
  proof -
    from latest_loop_result[OF r] obtain e where e: "e \<in> set es"
      and c: "candidate config m e = Some d"
      unfolding m_def es_def by auto
    obtain n f where nf: "e = (n, f)" by (cases e)
    from c have reg: "status f = regular_file" and p: "ParseDumpName n = Some d"
      unfolding nf candidate_Some by simp_all
    have fn: "filename d = n" using p by (rule ParseDumpName_filename)
    have mp: "map_of fs (FilenameToPath n config) = Some f"
      using dist e unfolding nf es_def by (rule list_directory_map_of)
    have rf: "ReadFileContents no_faults (FilenameToPath n config) fs = Inr (data f)"
      by (simp add: ReadFileContents_def no_faults_def mp reg)
    have "ReadLatestDump config now no_faults fs
          = Inr (Some \<lparr>contents = data f, update_time = ParsedDumpName.update_time d\<rparr>)"
      by (simp add: ReadLatestDump_def GetLatest_no_faults r fn rf p)
    with e c show ?thesis unfolding nf m_def es_def by force
  qed
qed

lemma ReadLatestDump_candidate:
  assumes dist: "distinct (map fst fs)"
    and mem: "e \<in> set (list_directory (dump_directory config) fs)"
    and c: "candidate config (MinAcceptableUpdateTime config now) e = Some d"
  shows "\<exists>dump. ReadLatestDump config now no_faults fs = Inr (Some dump) \<and>
                ParsedDumpName.update_time d \<le> DumpContents.update_time dump"
proof -
  define r where "r = latest_loop config (MinAcceptableUpdateTime config now)
           (map Inr (list_directory (dump_directory config) fs)) None"
  note R = latest_loop_result[OF r_def[symmetric]]
  have "r \<noteq> None" using R mem c by auto
  then obtain b where b: "r = Some b" by auto
  have le: "ParsedDumpName.update_time d \<le> ParsedDumpName.update_time b"
    using R b mem c by blast
  from ReadLatestDump_loop(2)[OF dist b[unfolded r_def]] obtain e' :: "string \<times> file_node" where
    "ReadLatestDump config now no_faults fs
       = Inr (Some \<lparr>contents = data (snd e'), update_time = ParsedDumpName.update_time b\<rparr>)"
    by blast
  with le show ?thesis by simp
qed

subsection \<open>Names without a directory\<close>

lemma no_slash_digits: "list_all is_digit s \<Longrightarrow> CHR ''/'' \<notin> set s"
  by (auto simp: list_all_iff is_digit_def)

lemma Timestring_no_slash: "CHR ''/'' \<notin> set (Timestring ns)"
  by (simp add: Timestring_def Let_def year_text_def no_slash_digits[OF pad_digits]
        split: prod.splits)

lemma dump_name_no_slash:
  "CHR ''/'' \<notin> set (Timestring ns @ ''-v'' @ replicate k CHR ''0'' @ dec n)"
  using no_slash_digits[OF dec_digits, of n] by (auto simp: Timestring_no_slash)

lemma list_directory_intro:
  assumes "(FilenameToPath n c, f) \<in> set fs" "n \<noteq> []" "CHR ''/'' \<notin> set n"
  shows "(n, f) \<in> set (list_directory (dump_directory c) fs)"
proof -
  have "child_name (dump_directory c) (FilenameToPath n c) = Some n"
    using assms(2,3) by (simp add: child_name_def FilenameToPath_def)
  then show ?thesis
    using assms(1) by (induction fs) (auto split: option.splits)
qed

subsection \<open>Names and directories of the examples\<close>

lemma replicate_5: "replicate 5 c = [c, c, c, c, c]"
  by (simp add: numeral_eq_Suc)

lemma civil_from_days_examples:
  "civil_from_days 19724 = (2024, 1, 2)"
  "civil_from_days (- 92974) = (1715, 6, 13)"
proof -
  have "march_year 739192 = 2023" "march_year 626494 = 1715"
    by (simp_all add: march_year_def year_start_def)
  moreover have "year_start 2023 = 738885" "year_start 1715 = 626390"
    by (simp_all add: year_start_def)
  moreover have "month_day 307 = (1, 2)" "month_day 104 = (6, 13)"
    by (simp_all add: month_day_def)
  ultimately show "civil_from_days 19724 = (2024, 1, 2)" "civil_from_days (- 92974) = (1715, 6, 13)"
    by (simp_all add: civil_from_days_def)
qed

lemma dec_examples:
  "dec 0 = ''0''" "dec (Suc 0) = ''1''" "dec 2 = ''2''" "dec 3 = ''3''" "dec 4 = ''4''" "dec 5 = ''5''"
  "dec 6 = ''6''" "dec 7 = ''7''" "dec 8 = ''8''" "dec 9 = ''9''" "dec 13 = ''13''" "dec 15 = ''15''"
  "dec 25 = ''25''" "dec 26 = ''26''" "dec 30 = ''30''" "dec 45 = ''45''" "dec 1715 = ''1715''"
  "dec 2024 = ''2024''" "dec 290448 = ''290448''"
  by (simp_all add: dec.simps digit_char_def)

lemma Timestring_examples:
  "Timestring 1704164646000000000 = ''2024-01-02T03:04:06.000000''"
  "Timestring 1704182400000000000 = ''2024-01-02T08:00:00.000000''"
  "Timestring 1704186900000000000 = ''2024-01-02T09:15:00.000000''"
  "Timestring 1704187800000000000 = ''2024-01-02T09:30:00.000000''"
  "Timestring 1704188700000000000 = ''2024-01-02T09:45:00.000000''"
  "Timestring (- 8032952073709551616) = ''1715-06-13T00:25:26.290448''"
  "Timestring (- 8032952073709552000) = ''1715-06-13T00:25:26.290448''"
  by (simp_all add: Timestring_def civil_from_days_examples year_text_def pad_def dec_examples
        replicate_5)

lemma ParseDumpName_examples:
  "ParseDumpName ''2024-01-02T03:04:06.000000-v3''
   = Some \<lparr>filename = ''2024-01-02T03:04:06.000000-v3'', update_time = 1704164646000000,
           format_version = 3\<rparr>"
  "ParseDumpName ''2024-01-02T08:00:00.000000-v3''
   = Some \<lparr>filename = ''2024-01-02T08:00:00.000000-v3'', update_time = 1704182400000000,
           format_version = 3\<rparr>"
  "ParseDumpName ''2024-01-02T09:15:00.000000-v3''
   = Some \<lparr>filename = ''2024-01-02T09:15:00.000000-v3'', update_time = 1704186900000000,
           format_version = 3\<rparr>"
  "ParseDumpName ''2024-01-02T09:30:00.000000-v3''
   = Some \<lparr>filename = ''2024-01-02T09:30:00.000000-v3'', update_time = 1704187800000000,
           format_version = 3\<rparr>"
  "ParseDumpName ''2024-01-02T09:45:00.000000-v4''
   = Some \<lparr>filename = ''2024-01-02T09:45:00.000000-v4'', update_time = 1704188700000000,
           format_version = 4\<rparr>"
  "ParseDumpName ''1715-06-13T00:25:26.290448-v3''
   = Some \<lparr>filename = ''1715-06-13T00:25:26.290448-v3'', update_time = - 8032952073709552,
           format_version = 3\<rparr>"
  using ParseDumpName_generated[of 1704164646000000 3] ParseDumpName_generated[of 1704182400000000 3]
    ParseDumpName_generated[of 1704186900000000 3] ParseDumpName_generated[of 1704187800000000 3]
    ParseDumpName_generated[of 1704188700000000 4] ParseDumpName_generated[of "- 8032952073709552" 3]
  by (simp_all add: Timestring_examples dec_examples)

lemma ParseDumpName_example_v3:
  "ParseDumpName ''2024-01-02T03:04:05.000000-v3''
   = Some \<lparr>filename = ''2024-01-02T03:04:05.000000-v3'', update_time = 1704164645000000,
           format_version = 3\<rparr>"
  using ParseDumpName_generated[of 1704164645000000 3]
  by (simp add: Timestring_example dec_3)

lemma ParseDumpName_example_v4:
  "ParseDumpName ''2024-01-02T03:04:05.000000-v4''
   = Some \<lparr>filename = ''2024-01-02T03:04:05.000000-v4'', update_time = 1704164645000000,
           format_version = 4\<rparr>"
  using ParseDumpName_generated[of 1704164645000000 4]
  by (simp add: Timestring_example dec_examples)

lemma replicate_2: "replicate 2 c = [c, c]"
  by (simp add: numeral_2_eq_2)

lemma ParseDumpName_example_v007:
  "ParseDumpName ''2024-01-02T03:04:05.000000-v007''
   = Some \<lparr>filename = ''2024-01-02T03:04:05.000000-v007'', update_time = 1704164645000000,
           format_version = 7\<rparr>"
  using ParseDumpName_zeros[of 1704164645000000 2 7]
  by (simp add: Timestring_example dec_examples replicate_2)

lemma regex_match_tmp_example:
  "regex_match kTmp ''2024-01-02T03:04:05.000000-v3.tmp'' \<noteq> None"
  "regex_match kTmp ''2024-01-02T03:04:06.000000-v3.tmp'' \<noteq> None"
  by (simp_all add: regex_match_def date_pieces_def is_digit_def)

lemma child_name_example:
  "child_name ''/d'' (''/d/'' @ n) = (if n \<noteq> [] \<and> CHR ''/'' \<notin> set n then Some n else None)"
  by (simp add: child_name_def)

lemma list_directory_single:
  "n \<noteq> [] \<Longrightarrow> CHR ''/'' \<notin> set n \<Longrightarrow> list_directory ''/d'' [(''/d/'' @ n, f)] = [(n, f)]"
  using child_name_example[of n] by simp


lemma Cleanup_removes_doomed:
  assumes ok: "snd (CleanupBlocking config now flt fs) = None"
    and mem: "(n, f) \<in> set (list_directory (dump_directory config) fs)"
    and dm: "doomed config (MinAcceptableUpdateTime config now) (n, f)"
  shows "map_of (fst (Cleanup config now flt fs)) (FilenameToPath n config) = None"
proof -
  define fs' where "fs' = fst (CleanupBlocking config now flt fs)"
  have ok': "CleanupBlocking config now flt fs = (fs', None)"
    using ok unfolding fs'_def by (cases "CleanupBlocking config now flt fs") simp
  define D where "D = (\<lambda>e. FilenameToPath (fst e) config) `
                     {e \<in> set (list_directory (dump_directory config) fs).
                        doomed config (MinAcceptableUpdateTime config now) e}"
  from ok' obtain X where "fs' = filter (\<lambda>x. fst x \<notin> D \<and> fst x \<notin> X) fs"
    unfolding D_def by (rule CleanupBlocking_ok)
  moreover have "FilenameToPath n config \<in> D" unfolding D_def using mem dm by force
  ultimately have "map_of fs' (FilenameToPath n config) = None"
    by (simp add: map_of_filter_fst[where P = "\<lambda>p. p \<notin> D \<and> p \<notin> X"])
  then show ?thesis by (simp add: Cleanup_def fs'_def)
qed

lemma ReadLatestDump_example_v007:
  "ReadLatestDump \<lparr>dump_directory = ''/d'', dump_format_version = 7, max_dump_age = None, max_dump_count = 5\<rparr> 0 no_faults [(''/d/2024-01-02T03:04:05.000000-v007'', \<lparr>status = regular_file, data = ''hello'', perms = 384\<rparr>)]
   = Inr (Some \<lparr>contents = ''hello'', update_time = 1704164645000000\<rparr>)"
proof -
  have l: "list_directory ''/d'' [(''/d/2024-01-02T03:04:05.000000-v007'', \<lparr>status = regular_file, data = ''hello'', perms = 384\<rparr>)] = [(''2024-01-02T03:04:05.000000-v007'', \<lparr>status = regular_file, data = ''hello'', perms = 384\<rparr>)]"
    using list_directory_single[of "''2024-01-02T03:04:05.000000-v007''" "\<lparr>status = regular_file, data = ''hello'', perms = 384\<rparr>"] by simp
  have g: "GetLatestDumpNameBlocking \<lparr>dump_directory = ''/d'', dump_format_version = 7, max_dump_age = None, max_dump_count = 5\<rparr> 0 no_faults [(''/d/2024-01-02T03:04:05.000000-v007'', \<lparr>status = regular_file, data = ''hello'', perms = 384\<rparr>)] = Some ''2024-01-02T03:04:05.000000-v007''"
    by (simp add: GetLatest_no_faults l latest_body_def ParseDumpName_example_v007
          del: list_directory_Cons)
  have r: "ReadFileContents no_faults (FilenameToPath ''2024-01-02T03:04:05.000000-v007'' \<lparr>dump_directory = ''/d'', dump_format_version = 7, max_dump_age = None, max_dump_count = 5\<rparr>) [(''/d/2024-01-02T03:04:05.000000-v007'', \<lparr>status = regular_file, data = ''hello'', perms = 384\<rparr>)] = Inr ''hello''"
    by (simp add: ReadFileContents_def no_faults_def FilenameToPath_def)
  show ?thesis
    by (simp add: ReadLatestDump_def g r ParseDumpName_example_v007)
qed

lemma Cleanup_example_v007:
  "fst (Cleanup \<lparr>dump_directory = ''/d'', dump_format_version = 8, max_dump_age = None, max_dump_count = 5\<rparr> 0 no_faults [(''/d/2024-01-02T03:04:05.000000-v007'', \<lparr>status = regular_file, data = ''hello'', perms = 384\<rparr>)]) = []"
  "fst (Cleanup \<lparr>dump_directory = ''/d'', dump_format_version = 7, max_dump_age = None, max_dump_count = 5\<rparr> 0 no_faults [(''/d/2024-01-02T03:04:05.000000-v007'', \<lparr>status = regular_file, data = ''hello'', perms = 384\<rparr>)]) = [(''/d/2024-01-02T03:04:05.000000-v007'', \<lparr>status = regular_file, data = ''hello'', perms = 384\<rparr>)]"
proof -
  have l: "list_directory ''/d'' [(''/d/2024-01-02T03:04:05.000000-v007'', \<lparr>status = regular_file, data = ''hello'', perms = 384\<rparr>)] = [(''2024-01-02T03:04:05.000000-v007'', \<lparr>status = regular_file, data = ''hello'', perms = 384\<rparr>)]"
    using list_directory_single[of "''2024-01-02T03:04:05.000000-v007''" "\<lparr>status = regular_file, data = ''hello'', perms = 384\<rparr>"] by simp
  have it: "directory_iterator no_faults ''/d'' [(''/d/2024-01-02T03:04:05.000000-v007'', \<lparr>status = regular_file, data = ''hello'', perms = 384\<rparr>)] = [Inr (''2024-01-02T03:04:05.000000-v007'', \<lparr>status = regular_file, data = ''hello'', perms = 384\<rparr>)]"
    by (simp add: directory_iterator_def no_faults_def l del: list_directory_Cons)
  have nt: "regex_match kTmp ''2024-01-02T03:04:05.000000-v007'' = None"
    by (rule ParseDumpName_not_tmp[OF ParseDumpName_example_v007])
  have m: "MinAcceptableUpdateTime \<lparr>dump_directory = ''/d'', dump_format_version = 8, max_dump_age = None, max_dump_count = 5\<rparr> 0 = TimePoint_min" "MinAcceptableUpdateTime \<lparr>dump_directory = ''/d'', dump_format_version = 7, max_dump_age = None, max_dump_count = 5\<rparr> 0 = TimePoint_min"
    by (simp_all add: MinAcceptableUpdateTime_def)
  have d8: "doomed \<lparr>dump_directory = ''/d'', dump_format_version = 8, max_dump_age = None, max_dump_count = 5\<rparr> TimePoint_min (''2024-01-02T03:04:05.000000-v007'', \<lparr>status = regular_file, data = ''hello'', perms = 384\<rparr>)"
    by (simp add: doomed_def nt ParseDumpName_example_v007)
  have d7: "\<not> doomed \<lparr>dump_directory = ''/d'', dump_format_version = 7, max_dump_age = None, max_dump_count = 5\<rparr> TimePoint_min (''2024-01-02T03:04:05.000000-v007'', \<lparr>status = regular_file, data = ''hello'', perms = 384\<rparr>)"
    by (simp add: doomed_def nt ParseDumpName_example_v007 TimePoint_min_def)
  have r7: "retained \<lparr>dump_directory = ''/d'', dump_format_version = 7, max_dump_age = None, max_dump_count = 5\<rparr> TimePoint_min (''2024-01-02T03:04:05.000000-v007'', \<lparr>status = regular_file, data = ''hello'', perms = 384\<rparr>) = Some \<lparr>filename = ''2024-01-02T03:04:05.000000-v007'', update_time = 1704164645000000, format_version = 7\<rparr>"
    by (simp add: retained_def nt ParseDumpName_example_v007 TimePoint_min_def)
  show "fst (Cleanup \<lparr>dump_directory = ''/d'', dump_format_version = 8, max_dump_age = None, max_dump_count = 5\<rparr> 0 no_faults [(''/d/2024-01-02T03:04:05.000000-v007'', \<lparr>status = regular_file, data = ''hello'', perms = 384\<rparr>)]) = []"
    by (simp add: Cleanup_def CleanupBlocking_def it m cleanup_body_eq d8)
       (simp add: no_faults_def unlink_def FilenameToPath_def)
  show "fst (Cleanup \<lparr>dump_directory = ''/d'', dump_format_version = 7, max_dump_age = None, max_dump_count = 5\<rparr> 0 no_faults [(''/d/2024-01-02T03:04:05.000000-v007'', \<lparr>status = regular_file, data = ''hello'', perms = 384\<rparr>)]) = [(''/d/2024-01-02T03:04:05.000000-v007'', \<lparr>status = regular_file, data = ''hello'', perms = 384\<rparr>)]"
    by (simp add: Cleanup_def CleanupBlocking_def it m cleanup_body_eq d7 r7)
qed

lemma Cleanup_frame_newer:
  assumes p: "ParseDumpName name = Some d"
    and newer: "dump_format_version config < format_version d"
    and fresh: "\<not> ParsedDumpName.update_time d < MinAcceptableUpdateTime config now"
  shows "map_of (fst (Cleanup config now flt fs)) (FilenameToPath name config)
         = map_of fs (FilenameToPath name config)"
proof -
  define m where "m = MinAcceptableUpdateTime config now"
  define q where "q = FilenameToPath name config"
  define es where "es = directory_iterator flt (dump_directory config) fs"
  have nd: "\<not> doomed config m (name, f)" for f
    using p newer fresh ParseDumpName_not_tmp[OF p] by (auto simp: doomed_def m_def)
  have fr1: "map_of (fst (cleanup_loop config m flt es fs [])) q = map_of fs q"
  proof (rule cleanup_loop_frame)
    fix e assume "Inr e \<in> set es" and de: "doomed config m e"
    show "FilenameToPath (fst e) config \<noteq> q"
    proof
      assume "FilenameToPath (fst e) config = q"
      then have "fst e = name" by (simp add: q_def)
      then have "e = (name, snd e)" by (cases e) simp
      with de nd show False by metis
    qed
  qed
  obtain fs1 r where l: "cleanup_loop config m flt es fs [] = (fs1, r)"
    by (cases "cleanup_loop config m flt es fs []")
  show ?thesis
  proof (cases r)
    case (Inl ex)
    with l fr1 show ?thesis
      by (simp add: Cleanup_def CleanupBlocking_def m_def[symmetric] es_def[symmetric] q_def[symmetric])
  next
    case (Inr dumps)
    define ds where "ds = drop (max_dump_count config) (sort_key (\<lambda>d. - ParsedDumpName.update_time d) dumps)"
    have "map_of (fst (remove_excess config flt ds fs1)) q = map_of fs1 q"
    proof (rule remove_excess_frame)
      fix d' assume "d' \<in> set ds"
      then have "d' \<in> set dumps" unfolding ds_def by (auto dest: in_set_dropD)
      then have "\<exists>e. Inr e \<in> set es \<and> retained config m e = Some d'"
        using cleanup_loop_dumps[OF l[unfolded Inr], of d'] by simp
      then obtain e where "retained config m e = Some d'" by blast
      then have pe: "ParseDumpName (fst e) = Some d'" and ve: "format_version d' = dump_format_version config"
        and fe: "filename d' = fst e"
        using retained_Some by blast+
      show "FilenameToPath (filename d') config \<noteq> q"
      proof
        assume "FilenameToPath (filename d') config = q"
        then have "fst e = name" using fe by (simp add: q_def)
        with pe p have "d' = d" by simp
        with ve newer show False by simp
      qed
    qed
    with l Inr fr1 show ?thesis
      by (simp add: Cleanup_def CleanupBlocking_def m_def[symmetric] es_def[symmetric]
            q_def[symmetric] ds_def[symmetric])
  qed
qed

lemma Round_int64:
  assumes "- (2 ^ 63) \<le> now" "now < 2 ^ 63"
  shows "- 9223372036854776 \<le> Round now" "Round now \<le> 9223372036854776"
  using Round_wrap64_bounds[of now] wrap64_id[OF assms] by simp_all

lemma cutoff_sound:
  assumes now: "- (2 ^ 63) \<le> now" "now < 2 ^ 63"
    and age: "max_dump_age config = Some age" "0 \<le> age"
    and p: "ParseDumpName n = Some d"
    and fresh: "\<not> ParsedDumpName.update_time d < MinAcceptableUpdateTime config now"
  shows "Round now - age * 1000 \<le> ParsedDumpName.update_time d"
proof (cases "- (2 ^ 63) \<le> Round now - age * 1000")
  case True
  have "Round now - age * 1000 < 2 ^ 63"
    using Round_int64(2)[OF now] age(2) by simp
  then have "MinAcceptableUpdateTime config now = Round now - age * 1000"
    using age(1) True by (intro MinAcceptableUpdateTime_exact)
  with fresh show ?thesis by simp
next
  case False
  then show ?thesis using ParseDumpName_bounds(1)[OF p] by simp
qed

subsection \<open>Reading the latest dump\<close>

text \<open>
  C1, amended. Let the rounded clock minus \<^verbatim>\<open>max_dump_age\<close>, when that is set, be
  a \<^verbatim>\<open>TimePoint\<close>: an integer of 64 bits, in microseconds. With a filesystem of
  distinct paths and no failing call, \<open>ReadLatestDump\<close> returns none exactly when no
  regular file of the dump directory has a name that parses with exactly the format
  version of the configuration and, when \<^verbatim>\<open>max_dump_age\<close> is set, an update time
  of at least the rounded clock minus that age. Otherwise it returns the contents of
  such a file, with the update time of its name, and no such file has a greater update
  time. It never raises. With an age so large that the subtraction leaves the 64 bits,
  the source compares with the wrapped difference, and a dump that is younger than the
  age is not returned, as the closed theorem after the witness shows.
\<close>

theorem ReadLatestDump_latest:
  assumes dist: "distinct (map fst fs)"
    and rep: "\<forall>age. max_dump_age config = Some age \<longrightarrow>
                - (2 ^ 63) \<le> Round now - age * 1000 \<and> Round now - age * 1000 < 2 ^ 63"
  shows "(ReadLatestDump config now no_faults fs = Inr None \<longleftrightarrow>
           (\<forall>e \<in> set (list_directory (dump_directory config) fs).
              \<not> (status (snd e) = regular_file \<and>
                 (\<exists>d. ParseDumpName (fst e) = Some d \<and>
                      format_version d = dump_format_version config \<and>
                      (\<forall>age. max_dump_age config = Some age \<longrightarrow>
                         Round now - age * 1000 \<le> ParsedDumpName.update_time d))))) \<and>
         (\<forall>dump. ReadLatestDump config now no_faults fs = Inr (Some dump) \<longrightarrow>
            (\<exists>e \<in> set (list_directory (dump_directory config) fs). \<exists>d.
                status (snd e) = regular_file \<and> ParseDumpName (fst e) = Some d \<and>
                format_version d = dump_format_version config \<and>
                (\<forall>age. max_dump_age config = Some age \<longrightarrow>
                   Round now - age * 1000 \<le> ParsedDumpName.update_time d) \<and>
                contents dump = data (snd e) \<and>
                DumpContents.update_time dump = ParsedDumpName.update_time d \<and>
                (\<forall>e' \<in> set (list_directory (dump_directory config) fs). \<forall>d'.
                   status (snd e') = regular_file \<and> ParseDumpName (fst e') = Some d' \<and>
                   format_version d' = dump_format_version config \<and>
                   (\<forall>age. max_dump_age config = Some age \<longrightarrow>
                      Round now - age * 1000 \<le> ParsedDumpName.update_time d')
                   \<longrightarrow> ParsedDumpName.update_time d' \<le> ParsedDumpName.update_time d))) \<and>
         (\<forall>ex. ReadLatestDump config now no_faults fs \<noteq> Inl ex)"
proof -
  define es where "es = list_directory (dump_directory config) fs"
  define m where "m = MinAcceptableUpdateTime config now"
  define r where "r = latest_loop config m (map Inr es) None"
  have cS: "candidate config m e = Some d \<longleftrightarrow>
     status (snd e) = regular_file \<and> ParseDumpName (fst e) = Some d \<and>
     format_version d = dump_format_version config \<and>
     (\<forall>age. max_dump_age config = Some age \<longrightarrow> Round now - age * 1000 \<le> ParsedDumpName.update_time d)"
    for e d
    unfolding m_def by (rule candidate_exact[OF rep])
  have cN: "candidate config m e = None \<longleftrightarrow>
     \<not> (status (snd e) = regular_file \<and>
        (\<exists>d. ParseDumpName (fst e) = Some d \<and> format_version d = dump_format_version config \<and>
           (\<forall>age. max_dump_age config = Some age \<longrightarrow>
              Round now - age * 1000 \<le> ParsedDumpName.update_time d)))"
    for e
  proof -
    have "candidate config m e = None \<longleftrightarrow> (\<forall>d. candidate config m e \<noteq> Some d)" by auto
    then show ?thesis unfolding cS by blast
  qed
  have R: "(r = None \<longleftrightarrow> (\<forall>e\<in>set es. candidate config m e = None)) \<and>
   (\<forall>d. r = Some d \<longrightarrow>
      (\<forall>e\<in>set es. \<forall>c. candidate config m e = Some c \<longrightarrow>
          ParsedDumpName.update_time c \<le> ParsedDumpName.update_time d))"
    using latest_loop_result[of config m es None r] by (simp add: r_def)
  show ?thesis
  proof (cases r)
    case None
    then have "ReadLatestDump config now no_faults fs = Inr None"
      using ReadLatestDump_loop(1)[OF dist, of config now] by (simp add: r_def m_def es_def)
    moreover have "\<forall>e\<in>set es. candidate config m e = None" using R None by simp
    ultimately show ?thesis unfolding es_def[symmetric] by (simp add: cN)
  next
    case (Some d)
    from ReadLatestDump_loop(2)[OF dist, of config now d] Some
    obtain e where e: "e \<in> set es" and c: "candidate config m e = Some d"
      and res: "ReadLatestDump config now no_faults fs
          = Inr (Some \<lparr>contents = data (snd e), update_time = ParsedDumpName.update_time d\<rparr>)"
      unfolding r_def m_def es_def by blast
    have mx: "\<forall>e\<in>set es. \<forall>c. candidate config m e = Some c \<longrightarrow>
          ParsedDumpName.update_time c \<le> ParsedDumpName.update_time d"
      using R Some by simp
    from c have reg: "status (snd e) = regular_file" and p: "ParseDumpName (fst e) = Some d"
      and v: "format_version d = dump_format_version config"
      and age: "\<forall>age. max_dump_age config = Some age \<longrightarrow> Round now - age * 1000 \<le> ParsedDumpName.update_time d"
      unfolding cS by simp_all
    have ne: "\<not> (\<forall>e\<in>set es. candidate config m e = None)" using e c by auto
    have mx': "\<forall>e' \<in> set es. \<forall>d'.
                   status (snd e') = regular_file \<and> ParseDumpName (fst e') = Some d' \<and>
                   format_version d' = dump_format_version config \<and>
                   (\<forall>age. max_dump_age config = Some age \<longrightarrow>
                      Round now - age * 1000 \<le> ParsedDumpName.update_time d')
                   \<longrightarrow> ParsedDumpName.update_time d' \<le> ParsedDumpName.update_time d"
      using mx by (simp add: cS)
    have ex: "\<exists>e0 \<in> set es. \<exists>d'.
                status (snd e0) = regular_file \<and> ParseDumpName (fst e0) = Some d' \<and>
                format_version d' = dump_format_version config \<and>
                (\<forall>age. max_dump_age config = Some age \<longrightarrow>
                   Round now - age * 1000 \<le> ParsedDumpName.update_time d') \<and>
                data (snd e) = data (snd e0) \<and>
                ParsedDumpName.update_time d = ParsedDumpName.update_time d' \<and>
                (\<forall>e' \<in> set es. \<forall>d''.
                   status (snd e') = regular_file \<and> ParseDumpName (fst e') = Some d'' \<and>
                   format_version d'' = dump_format_version config \<and>
                   (\<forall>age. max_dump_age config = Some age \<longrightarrow>
                      Round now - age * 1000 \<le> ParsedDumpName.update_time d'')
                   \<longrightarrow> ParsedDumpName.update_time d'' \<le> ParsedDumpName.update_time d')"
      using e reg p v age mx' by (intro bexI[of _ e] exI[of _ d]) simp_all
    have nn: "\<not> (\<forall>e \<in> set es.
              \<not> (status (snd e) = regular_file \<and>
                 (\<exists>d. ParseDumpName (fst e) = Some d \<and>
                      format_version d = dump_format_version config \<and>
                      (\<forall>age. max_dump_age config = Some age \<longrightarrow>
                         Round now - age * 1000 \<le> ParsedDumpName.update_time d))))"
      using ne by (simp add: cN)
    show ?thesis
      unfolding es_def[symmetric] res using ex nn by simp
  qed
qed

theorem ReadLatestDump_latest_witness:
  "distinct (map fst
     [(''/d/2024-01-02T08:00:00.000000-v3'', \<lparr>status = regular_file, data = ''stale'', perms = 384\<rparr>),
      (''/d/2024-01-02T09:15:00.000000-v3'', \<lparr>status = regular_file, data = ''older'', perms = 384\<rparr>),
      (''/d/2024-01-02T09:30:00.000000-v3'', \<lparr>status = regular_file, data = ''fresh'', perms = 384\<rparr>),
      (''/d/2024-01-02T09:45:00.000000-v4'', \<lparr>status = regular_file, data = ''other'', perms = 384\<rparr>)]) \<and>
   - (2 ^ 63) \<le> Round 1704189600000000000 - 3600000 * 1000 \<and>
   Round 1704189600000000000 - 3600000 * 1000 < 2 ^ 63 \<and>
   ReadLatestDump \<lparr>dump_directory = ''/d'', dump_format_version = 3, max_dump_age = Some 3600000, max_dump_count = 5\<rparr> 1704189600000000000 no_faults
     [(''/d/2024-01-02T08:00:00.000000-v3'', \<lparr>status = regular_file, data = ''stale'', perms = 384\<rparr>),
      (''/d/2024-01-02T09:15:00.000000-v3'', \<lparr>status = regular_file, data = ''older'', perms = 384\<rparr>),
      (''/d/2024-01-02T09:30:00.000000-v3'', \<lparr>status = regular_file, data = ''fresh'', perms = 384\<rparr>),
      (''/d/2024-01-02T09:45:00.000000-v4'', \<lparr>status = regular_file, data = ''other'', perms = 384\<rparr>)]
   = Inr (Some \<lparr>contents = ''fresh'', update_time = 1704187800000000\<rparr>)"
proof -
  define fs where "fs =
     [(''/d/2024-01-02T08:00:00.000000-v3'', \<lparr>status = regular_file, data = ''stale'', perms = 384\<rparr>),
      (''/d/2024-01-02T09:15:00.000000-v3'', \<lparr>status = regular_file, data = ''older'', perms = 384\<rparr>),
      (''/d/2024-01-02T09:30:00.000000-v3'', \<lparr>status = regular_file, data = ''fresh'', perms = 384\<rparr>),
      (''/d/2024-01-02T09:45:00.000000-v4'', \<lparr>status = regular_file, data = ''other'', perms = 384\<rparr>)]"
  define config where "config = \<lparr>dump_directory = ''/d'', dump_format_version = 3, max_dump_age = Some 3600000, max_dump_count = 5\<rparr>"
  define R where "R = ReadLatestDump config 1704189600000000000 no_faults fs"
  have d: "distinct (map fst fs)" by (simp add: fs_def)
  have rn: "Round 1704189600000000000 = 1704189600000000" by (simp add: Round_def)
  have v: "dump_format_version config = 3" and a: "max_dump_age config = Some 3600000"
    by (simp_all add: config_def)
  have rep: "\<forall>age. max_dump_age config = Some age \<longrightarrow>
                - (2 ^ 63) \<le> Round 1704189600000000000 - age * 1000 \<and> Round 1704189600000000000 - age * 1000 < 2 ^ 63"
    by (simp add: a rn)
  have l: "list_directory (dump_directory config) fs =
     [(''2024-01-02T08:00:00.000000-v3'', \<lparr>status = regular_file, data = ''stale'', perms = 384\<rparr>),
      (''2024-01-02T09:15:00.000000-v3'', \<lparr>status = regular_file, data = ''older'', perms = 384\<rparr>),
      (''2024-01-02T09:30:00.000000-v3'', \<lparr>status = regular_file, data = ''fresh'', perms = 384\<rparr>),
      (''2024-01-02T09:45:00.000000-v4'', \<lparr>status = regular_file, data = ''other'', perms = 384\<rparr>)]"
    using child_name_example[of "''2024-01-02T08:00:00.000000-v3''"] child_name_example[of "''2024-01-02T09:15:00.000000-v3''"]
      child_name_example[of "''2024-01-02T09:30:00.000000-v3''"] child_name_example[of "''2024-01-02T09:45:00.000000-v4''"]
    by (simp add: fs_def config_def)
  note T = ReadLatestDump_latest[OF d rep, folded R_def, unfolded l]
  have "R \<noteq> Inr None" using T by (simp add: ParseDumpName_examples v a rn)
  moreover have "\<forall>ex. R \<noteq> Inl ex" using T by blast
  ultimately obtain dump where r: "R = Inr (Some dump)"
    by (cases R) auto
  from T r have "contents dump = ''fresh'' \<and> DumpContents.update_time dump = 1704187800000000"
    by (simp add: ParseDumpName_examples v a rn)
  then have "dump = \<lparr>contents = ''fresh'', update_time = 1704187800000000\<rparr>"
    by (cases dump) simp
  with r d show ?thesis unfolding R_def fs_def config_def by (simp add: rn)
qed

theorem ReadLatestDump_age_beyond_64_bits:
  "ParseDumpName ''2024-01-02T03:04:05.000000-v3'' = Some \<lparr>filename = ''2024-01-02T03:04:05.000000-v3'', update_time = 1704164645000000, format_version = 3\<rparr> \<and>
   Round 1704189600000000000 - 9223372036854775807 * 1000 \<le> 1704164645000000 \<and>
   MinAcceptableUpdateTime \<lparr>dump_directory = ''/d'', dump_format_version = 3, max_dump_age = Some 9223372036854775807, max_dump_count = 5\<rparr> 1704189600000000000 = 1704189600001000 \<and>
   ReadLatestDump \<lparr>dump_directory = ''/d'', dump_format_version = 3, max_dump_age = Some 9223372036854775807, max_dump_count = 5\<rparr> 1704189600000000000 no_faults [(''/d/2024-01-02T03:04:05.000000-v3'', \<lparr>status = regular_file, data = ''hello'', perms = 384\<rparr>)] = Inr None"
proof -
  have rn: "Round 1704189600000000000 = 1704189600000000" by (simp add: Round_def)
  have m: "MinAcceptableUpdateTime \<lparr>dump_directory = ''/d'', dump_format_version = 3, max_dump_age = Some 9223372036854775807, max_dump_count = 5\<rparr> 1704189600000000000 = 1704189600001000"
    by (simp add: MinAcceptableUpdateTime_def rn wrap64_def)
  have l: "list_directory ''/d'' [(''/d/2024-01-02T03:04:05.000000-v3'', \<lparr>status = regular_file, data = ''hello'', perms = 384\<rparr>)] = [(''2024-01-02T03:04:05.000000-v3'', \<lparr>status = regular_file, data = ''hello'', perms = 384\<rparr>)]"
    using list_directory_single[of "''2024-01-02T03:04:05.000000-v3''" "\<lparr>status = regular_file, data = ''hello'', perms = 384\<rparr>"] by simp
  have g: "GetLatestDumpNameBlocking \<lparr>dump_directory = ''/d'', dump_format_version = 3, max_dump_age = Some 9223372036854775807, max_dump_count = 5\<rparr> 1704189600000000000 no_faults [(''/d/2024-01-02T03:04:05.000000-v3'', \<lparr>status = regular_file, data = ''hello'', perms = 384\<rparr>)] = None"
    by (simp add: GetLatest_no_faults l m latest_body_def ParseDumpName_example_v3
          del: list_directory_Cons)
  show ?thesis
    using ParseDumpName_example_v3 m by (simp add: ReadLatestDump_def g rn)
qed

subsection \<open>Retention\<close>

text \<open>
  C3. When \<^verbatim>\<open>CleanupBlocking\<close> has logged no error, then among the regular files left
  in the dump directory at most \<^verbatim>\<open>max_dump_count\<close> have a name of the current format
  version; none matches the regex of temporary files; none has a name of a format
  version below the current one; and every one of the current version is, when
  \<^verbatim>\<open>max_dump_age\<close> is set, not older than that age. The reading of the clock is
  an integer of 64 bits, and \<^verbatim>\<open>max_dump_age\<close> is not negative: the data model
  of the specification has it positive. The age may be so large that the rounded clock
  minus the age is no \<^verbatim>\<open>TimePoint\<close>: the bound on the files that are left holds
  then as well.
\<close>

theorem Cleanup_retention:
  assumes ok: "snd (CleanupBlocking config now flt fs) = None"
    and dist: "distinct (map fst fs)"
    and clock: "- (2 ^ 63) \<le> now" "now < 2 ^ 63"
    and pos: "\<forall>age. max_dump_age config = Some age \<longrightarrow> 0 \<le> age"
  shows "length (filter (\<lambda>e. status (snd e) = regular_file \<and>
                   (\<exists>d. ParseDumpName (fst e) = Some d \<and> format_version d = dump_format_version config))
            (list_directory (dump_directory config) (fst (Cleanup config now flt fs))))
         \<le> max_dump_count config \<and>
         (\<forall>e \<in> set (list_directory (dump_directory config) (fst (Cleanup config now flt fs))).
            status (snd e) = regular_file \<longrightarrow>
              regex_match kTmp (fst e) = None \<and>
              (\<forall>d. ParseDumpName (fst e) = Some d \<longrightarrow>
                 \<not> format_version d < dump_format_version config \<and>
                 (\<forall>age. format_version d = dump_format_version config \<and> max_dump_age config = Some age
                    \<longrightarrow> Round now - age * 1000 \<le> ParsedDumpName.update_time d)))"
proof -
  define fs' where "fs' = fst (CleanupBlocking config now flt fs)"
  define m where "m = MinAcceptableUpdateTime config now"
  define k where "k = max_dump_count config"
  define sorted_dumps where "sorted_dumps = sort_key (\<lambda>d. - ParsedDumpName.update_time d)
                       (List.map_filter (retained config m)
                          (list_directory (dump_directory config) fs))"
  have ok': "CleanupBlocking config now flt fs = (fs', None)"
    using ok unfolding fs'_def by (cases "CleanupBlocking config now flt fs") simp
  have C: "fst (Cleanup config now flt fs) = fs'" by (simp add: Cleanup_def fs'_def)
  define L where "L = filter (\<lambda>e. status (snd e) = regular_file \<and>
                   (\<exists>d. ParseDumpName (fst e) = Some d \<and> format_version d = dump_format_version config))
            (list_directory (dump_directory config) fs')"
  have "distinct (map fst fs')"
    using CleanupBlocking_ok[OF ok'] dist by (metis (no_types, lifting) unlink_distinct)
  then have "distinct (map fst (list_directory (dump_directory config) fs'))"
    by (rule list_directory_distinct)
  then have dL: "distinct (map fst L)" unfolding L_def by (simp add: distinct_map_filter)
  have sub: "set (map fst L) \<subseteq> filename ` set (take k sorted_dumps)"
  proof
    fix n assume "n \<in> set (map fst L)"
    then obtain f d where mem: "(n, f) \<in> set (list_directory (dump_directory config) fs')"
      and reg: "status f = regular_file" and p: "ParseDumpName n = Some d"
      and v: "format_version d = dump_format_version config"
      unfolding L_def by auto
    have "retained config m (n, f) = Some d"
      using not_doomed_regular(4)[OF Cleanup_survivor(2)[OF ok' mem] reg p v] by (simp add: m_def)
    then have "d \<in> set (take k sorted_dumps)"
      using Cleanup_survivor(3)[OF ok' mem] unfolding m_def k_def sorted_dumps_def by simp
    moreover have "filename d = n" using p by (rule ParseDumpName_filename)
    ultimately show "n \<in> filename ` set (take k sorted_dumps)" by force
  qed
  have "length L = card (set (map fst L))"
    using dL by (metis distinct_card length_map)
  also have "\<dots> \<le> card (filename ` set (take k sorted_dumps))"
    using sub by (intro card_mono) simp_all
  also have "\<dots> \<le> card (set (take k sorted_dumps))" by (intro card_image_le) simp
  also have "\<dots> \<le> length (take k sorted_dumps)" by (rule card_length)
  also have "\<dots> \<le> k" by simp
  finally have a: "length L \<le> max_dump_count config" unfolding k_def .
  have b: "regex_match kTmp (fst e) = None \<and>
              (\<forall>d. ParseDumpName (fst e) = Some d \<longrightarrow>
                 \<not> format_version d < dump_format_version config \<and>
                 (\<forall>age. format_version d = dump_format_version config \<and> max_dump_age config = Some age
                    \<longrightarrow> Round now - age * 1000 \<le> ParsedDumpName.update_time d))"
    if mem: "e \<in> set (list_directory (dump_directory config) fs')" and reg: "status (snd e) = regular_file" for e
  proof -
    obtain n f where e: "e = (n, f)" by (cases e)
    have nd: "\<not> doomed config m (n, f)"
      using Cleanup_survivor(2)[OF ok' mem[unfolded e]] by (simp add: m_def)
    have reg': "status f = regular_file" using reg e by simp
    have age: "Round now - age * 1000 \<le> ParsedDumpName.update_time d"
      if p: "ParseDumpName n = Some d" and a: "max_dump_age config = Some age" for d age
    proof -
      have "0 \<le> age" using pos a by simp
      moreover have "\<not> ParsedDumpName.update_time d < MinAcceptableUpdateTime config now"
        using not_doomed_regular(3)[OF nd reg' p] by (simp add: m_def)
      ultimately show ?thesis using clock a p by (intro cutoff_sound)
    qed
    show ?thesis
      using not_doomed_regular(1,2)[OF nd reg'] age unfolding e by auto
  qed
  show ?thesis
    unfolding C using a b unfolding L_def by blast
qed

theorem Cleanup_retention_witness:
  "- (2 ^ 63) \<le> (1704189600000000000 :: int) \<and> (1704189600000000000 :: int) < 2 ^ 63 \<and> (0 :: int) \<le> 3600000 \<and>
   snd (CleanupBlocking \<lparr>dump_directory = ''/d'', dump_format_version = 3, max_dump_age = Some 3600000, max_dump_count = 5\<rparr> 1704189600000000000 no_faults
     [(''/d/2024-01-02T08:00:00.000000-v3'', \<lparr>status = regular_file, data = ''stale'', perms = 384\<rparr>),
      (''/d/2024-01-02T09:30:00.000000-v3'', \<lparr>status = regular_file, data = ''fresh'', perms = 384\<rparr>),
      (''/d/2024-01-02T03:04:06.000000-v3.tmp'', \<lparr>status = regular_file, data = ''part'', perms = 384\<rparr>)]) = None \<and>
   distinct (map fst
     [(''/d/2024-01-02T08:00:00.000000-v3'', \<lparr>status = regular_file, data = ''stale'', perms = 384\<rparr>),
      (''/d/2024-01-02T09:30:00.000000-v3'', \<lparr>status = regular_file, data = ''fresh'', perms = 384\<rparr>),
      (''/d/2024-01-02T03:04:06.000000-v3.tmp'', \<lparr>status = regular_file, data = ''part'', perms = 384\<rparr>)]) \<and>
   map_of (fst (Cleanup \<lparr>dump_directory = ''/d'', dump_format_version = 3, max_dump_age = Some 3600000, max_dump_count = 5\<rparr> 1704189600000000000 no_faults
     [(''/d/2024-01-02T08:00:00.000000-v3'', \<lparr>status = regular_file, data = ''stale'', perms = 384\<rparr>),
      (''/d/2024-01-02T09:30:00.000000-v3'', \<lparr>status = regular_file, data = ''fresh'', perms = 384\<rparr>),
      (''/d/2024-01-02T03:04:06.000000-v3.tmp'', \<lparr>status = regular_file, data = ''part'', perms = 384\<rparr>)]))
     ''/d/2024-01-02T03:04:06.000000-v3.tmp'' = None \<and>
   map_of (fst (Cleanup \<lparr>dump_directory = ''/d'', dump_format_version = 3, max_dump_age = Some 3600000, max_dump_count = 5\<rparr> 1704189600000000000 no_faults
     [(''/d/2024-01-02T08:00:00.000000-v3'', \<lparr>status = regular_file, data = ''stale'', perms = 384\<rparr>),
      (''/d/2024-01-02T09:30:00.000000-v3'', \<lparr>status = regular_file, data = ''fresh'', perms = 384\<rparr>),
      (''/d/2024-01-02T03:04:06.000000-v3.tmp'', \<lparr>status = regular_file, data = ''part'', perms = 384\<rparr>)]))
     ''/d/2024-01-02T08:00:00.000000-v3'' = None"
proof -
  define fs where "fs =
     [(''/d/2024-01-02T08:00:00.000000-v3'', \<lparr>status = regular_file, data = ''stale'', perms = 384\<rparr>),
      (''/d/2024-01-02T09:30:00.000000-v3'', \<lparr>status = regular_file, data = ''fresh'', perms = 384\<rparr>),
      (''/d/2024-01-02T03:04:06.000000-v3.tmp'', \<lparr>status = regular_file, data = ''part'', perms = 384\<rparr>)]"
  define config where "config = \<lparr>dump_directory = ''/d'', dump_format_version = 3, max_dump_age = Some 3600000, max_dump_count = 5\<rparr>"
  define fs' where "fs' = fst (Cleanup config 1704189600000000000 no_faults fs)"
  have ok: "snd (CleanupBlocking config 1704189600000000000 no_faults fs) = None" by (rule CleanupBlocking_no_faults)
  have d: "distinct (map fst fs)" by (simp add: fs_def)
  have c1: "- (2 ^ 63) \<le> (1704189600000000000 :: int)" and c2: "(1704189600000000000 :: int) < 2 ^ 63" by simp_all
  have pos: "\<forall>age. max_dump_age config = Some age \<longrightarrow> 0 \<le> age" by (simp add: config_def)
  have rn: "Round 1704189600000000000 = 1704189600000000" by (simp add: Round_def)
  have kept: "\<forall>e \<in> set (list_directory (dump_directory config) fs').
            status (snd e) = regular_file \<longrightarrow>
              regex_match kTmp (fst e) = None \<and>
              (\<forall>d. ParseDumpName (fst e) = Some d \<longrightarrow>
                 \<not> format_version d < dump_format_version config \<and>
                 (\<forall>age. format_version d = dump_format_version config \<and> max_dump_age config = Some age
                    \<longrightarrow> Round 1704189600000000000 - age * 1000 \<le> ParsedDumpName.update_time d))"
    using Cleanup_retention[OF ok d c1 c2 pos] unfolding fs'_def by blast
  have sub: "map_of fs' p = None \<or> map_of fs' p = map_of fs p" for p
  proof -
    have ok': "CleanupBlocking config 1704189600000000000 no_faults fs = (fs', None)"
      using ok unfolding fs'_def Cleanup_def
      by (cases "CleanupBlocking config 1704189600000000000 no_faults fs") simp
    from ok' obtain D X where "fs' = filter (\<lambda>x. fst x \<notin> D \<and> fst x \<notin> X) fs"
      by (rule CleanupBlocking_ok)
    then show ?thesis
      by (simp add: map_of_filter_fst[where P = "\<lambda>p. p \<notin> D \<and> p \<notin> X"])
  qed
  have listed: "(n, f) \<in> set (list_directory (dump_directory config) fs')"
    if "map_of fs' (''/d/'' @ n) = Some f" "n \<noteq> []" "CHR ''/'' \<notin> set n" for n f
  proof -
    have "(FilenameToPath n config, f) \<in> set fs'"
      using map_of_SomeD[OF that(1)] by (simp add: FilenameToPath_def config_def)
    then show ?thesis using that(2,3) by (rule list_directory_intro)
  qed
  have gone_tmp: "map_of fs' ''/d/2024-01-02T03:04:06.000000-v3.tmp'' = None"
  proof (rule ccontr)
    assume "map_of fs' ''/d/2024-01-02T03:04:06.000000-v3.tmp'' \<noteq> None"
    with sub[of "''/d/2024-01-02T03:04:06.000000-v3.tmp''"]
    have "map_of fs' (''/d/'' @ ''2024-01-02T03:04:06.000000-v3.tmp'') = Some \<lparr>status = regular_file, data = ''part'', perms = 384\<rparr>"
      by (simp add: fs_def)
    then have "(''2024-01-02T03:04:06.000000-v3.tmp'', \<lparr>status = regular_file, data = ''part'', perms = 384\<rparr>) \<in> set (list_directory (dump_directory config) fs')"
      by (rule listed) simp_all
    with kept have "regex_match kTmp ''2024-01-02T03:04:06.000000-v3.tmp'' = None" by force
    with regex_match_tmp_example(2) show False by simp
  qed
  have gone_stale: "map_of fs' ''/d/2024-01-02T08:00:00.000000-v3'' = None"
  proof (rule ccontr)
    assume "map_of fs' ''/d/2024-01-02T08:00:00.000000-v3'' \<noteq> None"
    with sub[of "''/d/2024-01-02T08:00:00.000000-v3''"]
    have "map_of fs' (''/d/'' @ ''2024-01-02T08:00:00.000000-v3'') = Some \<lparr>status = regular_file, data = ''stale'', perms = 384\<rparr>"
      by (simp add: fs_def)
    then have "(''2024-01-02T08:00:00.000000-v3'', \<lparr>status = regular_file, data = ''stale'', perms = 384\<rparr>) \<in> set (list_directory (dump_directory config) fs')"
      by (rule listed) simp_all
    with kept have "\<forall>d. ParseDumpName ''2024-01-02T08:00:00.000000-v3'' = Some d \<longrightarrow>
                 (\<forall>age. format_version d = dump_format_version config \<and> max_dump_age config = Some age
                    \<longrightarrow> Round 1704189600000000000 - age * 1000 \<le> ParsedDumpName.update_time d)"
      by force
    then show False by (simp add: ParseDumpName_examples config_def rn)
  qed
  show ?thesis
    using ok d gone_tmp gone_stale unfolding fs'_def fs_def config_def by simp
qed

subsection \<open>Dumps of a newer format version\<close>

text \<open>
  C7, amended. A file whose name parses with a format version above the current one
  is the same before and after \<open>Cleanup\<close>, whatever fails, when \<^verbatim>\<open>max_dump_age\<close>
  is not set, and when it is set, the rounded clock minus that age is a
  \<^verbatim>\<open>TimePoint\<close> (at least the least integer of 64 bits, in microseconds) and the
  update time of the name is not below it. A file of a newer version that is older than
  \<^verbatim>\<open>max_dump_age\<close> is removed, as the closed theorem after the witness shows.
\<close>

theorem Cleanup_keeps_newer:
  assumes p: "ParseDumpName name = Some d"
    and newer: "dump_format_version config < format_version d"
    and age: "\<forall>age. max_dump_age config = Some age \<longrightarrow>
                  - (2 ^ 63) \<le> Round now - age * 1000 \<and>
                  Round now - age * 1000 \<le> ParsedDumpName.update_time d"
  shows "map_of (fst (Cleanup config now flt fs)) (FilenameToPath name config)
         = map_of fs (FilenameToPath name config)"
proof -
  have fresh: "\<not> ParsedDumpName.update_time d < MinAcceptableUpdateTime config now"
  proof (cases "max_dump_age config")
    case None
    then show ?thesis
      using ParseDumpName_lower[OF p] by (simp add: MinAcceptableUpdateTime_def)
  next
    case (Some a)
    have lo: "- (2 ^ 63) \<le> Round now - a * 1000"
      and le: "Round now - a * 1000 \<le> ParsedDumpName.update_time d"
      using age Some by simp_all
    have "Round now - a * 1000 < 2 ^ 63"
      using le ParseDumpName_bounds(2)[OF p] by simp
    then have "MinAcceptableUpdateTime config now = Round now - a * 1000"
      using Some lo by (intro MinAcceptableUpdateTime_exact)
    then show ?thesis using le by simp
  qed
  show ?thesis using p newer fresh by (rule Cleanup_frame_newer)
qed

theorem Cleanup_keeps_newer_witness:
  "ParseDumpName ''2024-01-02T03:04:05.000000-v4'' = Some \<lparr>filename = ''2024-01-02T03:04:05.000000-v4'', update_time = 1704164645000000, format_version = 4\<rparr> \<and>
   dump_format_version \<lparr>dump_directory = ''/d'', dump_format_version = 3, max_dump_age = Some 3600000, max_dump_count = 5\<rparr> < format_version \<lparr>filename = ''2024-01-02T03:04:05.000000-v4'', update_time = 1704164645000000, format_version = 4\<rparr> \<and>
   - (2 ^ 63) \<le> Round 1704166200000000000 - 3600000 * 1000 \<and>
   Round 1704166200000000000 - 3600000 * 1000 \<le> ParsedDumpName.update_time \<lparr>filename = ''2024-01-02T03:04:05.000000-v4'', update_time = 1704164645000000, format_version = 4\<rparr> \<and>
   map_of (fst (Cleanup \<lparr>dump_directory = ''/d'', dump_format_version = 3, max_dump_age = Some 3600000, max_dump_count = 5\<rparr> 1704166200000000000 no_faults [(''/d/2024-01-02T03:04:05.000000-v4'', \<lparr>status = regular_file, data = ''hello'', perms = 384\<rparr>)])) ''/d/2024-01-02T03:04:05.000000-v4'' = Some \<lparr>status = regular_file, data = ''hello'', perms = 384\<rparr>"
proof -
  have p: "ParseDumpName ''2024-01-02T03:04:05.000000-v4'' = Some \<lparr>filename = ''2024-01-02T03:04:05.000000-v4'', update_time = 1704164645000000, format_version = 4\<rparr>" by (rule ParseDumpName_example_v4)
  have n: "dump_format_version \<lparr>dump_directory = ''/d'', dump_format_version = 3, max_dump_age = Some 3600000, max_dump_count = 5\<rparr> < format_version \<lparr>filename = ''2024-01-02T03:04:05.000000-v4'', update_time = 1704164645000000, format_version = 4\<rparr>" by simp
  have rn: "Round 1704166200000000000 = 1704166200000000" by (simp add: Round_def)
  have a: "\<forall>age. max_dump_age \<lparr>dump_directory = ''/d'', dump_format_version = 3, max_dump_age = Some 3600000, max_dump_count = 5\<rparr> = Some age \<longrightarrow>
      - (2 ^ 63) \<le> Round 1704166200000000000 - age * 1000 \<and>
      Round 1704166200000000000 - age * 1000 \<le> ParsedDumpName.update_time \<lparr>filename = ''2024-01-02T03:04:05.000000-v4'', update_time = 1704164645000000, format_version = 4\<rparr>"
    by (simp add: rn)
  show ?thesis
    using p n Cleanup_keeps_newer[OF p n a, of no_faults "[(''/d/2024-01-02T03:04:05.000000-v4'', \<lparr>status = regular_file, data = ''hello'', perms = 384\<rparr>)]"]
    by (simp add: FilenameToPath_def rn)
qed

theorem Cleanup_removes_expired_newer_version:
  "ParseDumpName ''2024-01-02T03:04:05.000000-v4'' = Some \<lparr>filename = ''2024-01-02T03:04:05.000000-v4'', update_time = 1704164645000000, format_version = 4\<rparr> \<and>
   dump_format_version \<lparr>dump_directory = ''/d'', dump_format_version = 3, max_dump_age = Some 3600000, max_dump_count = 5\<rparr> < format_version \<lparr>filename = ''2024-01-02T03:04:05.000000-v4'', update_time = 1704164645000000, format_version = 4\<rparr> \<and>
   map_of [(''/d/2024-01-02T03:04:05.000000-v4'', \<lparr>status = regular_file, data = ''hello'', perms = 384\<rparr>)] ''/d/2024-01-02T03:04:05.000000-v4'' = Some \<lparr>status = regular_file, data = ''hello'', perms = 384\<rparr> \<and>
   map_of (fst (Cleanup \<lparr>dump_directory = ''/d'', dump_format_version = 3, max_dump_age = Some 3600000, max_dump_count = 5\<rparr> 1704189600000000000 no_faults [(''/d/2024-01-02T03:04:05.000000-v4'', \<lparr>status = regular_file, data = ''hello'', perms = 384\<rparr>)])) ''/d/2024-01-02T03:04:05.000000-v4'' = None"
proof -
  have p: "ParseDumpName ''2024-01-02T03:04:05.000000-v4'' = Some \<lparr>filename = ''2024-01-02T03:04:05.000000-v4'', update_time = 1704164645000000, format_version = 4\<rparr>" by (rule ParseDumpName_example_v4)
  have m: "MinAcceptableUpdateTime \<lparr>dump_directory = ''/d'', dump_format_version = 3, max_dump_age = Some 3600000, max_dump_count = 5\<rparr> 1704189600000000000 = 1704186000000000"
    by (simp add: MinAcceptableUpdateTime_def Round_def wrap64_def)
  have l: "list_directory ''/d'' [(''/d/2024-01-02T03:04:05.000000-v4'', \<lparr>status = regular_file, data = ''hello'', perms = 384\<rparr>)] = [(''2024-01-02T03:04:05.000000-v4'', \<lparr>status = regular_file, data = ''hello'', perms = 384\<rparr>)]"
    using list_directory_single[of "''2024-01-02T03:04:05.000000-v4''" "\<lparr>status = regular_file, data = ''hello'', perms = 384\<rparr>"] by simp
  have dm: "doomed \<lparr>dump_directory = ''/d'', dump_format_version = 3, max_dump_age = Some 3600000, max_dump_count = 5\<rparr> (MinAcceptableUpdateTime \<lparr>dump_directory = ''/d'', dump_format_version = 3, max_dump_age = Some 3600000, max_dump_count = 5\<rparr> 1704189600000000000) (''2024-01-02T03:04:05.000000-v4'', \<lparr>status = regular_file, data = ''hello'', perms = 384\<rparr>)"
    unfolding m by (simp add: doomed_def p)
  have "map_of (fst (Cleanup \<lparr>dump_directory = ''/d'', dump_format_version = 3, max_dump_age = Some 3600000, max_dump_count = 5\<rparr> 1704189600000000000 no_faults [(''/d/2024-01-02T03:04:05.000000-v4'', \<lparr>status = regular_file, data = ''hello'', perms = 384\<rparr>)]))
          (FilenameToPath ''2024-01-02T03:04:05.000000-v4'' \<lparr>dump_directory = ''/d'', dump_format_version = 3, max_dump_age = Some 3600000, max_dump_count = 5\<rparr>) = None"
    by (rule Cleanup_removes_doomed[OF CleanupBlocking_no_faults _ dm])
       (simp add: l del: list_directory_Cons)
  then show ?thesis using p by (simp add: FilenameToPath_def)
qed

subsection \<open>A removal that fails\<close>




subsection \<open>Formatting and parsing a name\<close>

text \<open>
  C4, amended. For every update time whose count of nanoseconds is an integer of 64
  bits, from 1677-09-21T00:12:43.145225 to 2262-04-11T23:47:16.854775 (in microseconds
  since the epoch), and every format version, the file name of the path that
  \<open>GenerateDumpPath\<close> writes parses, and gives back that update time and that
  version. Outside of this range the conversion to nanoseconds wraps, and the name is
  that of another instant: the closed theorem after the witness shows the name of the
  first microsecond of the year 2300, which parses to an instant of the year 1715.
\<close>

theorem GenerateDumpPath_roundtrip:
  assumes "- 9223372036854775 \<le> t" and "t \<le> 9223372036854775"
  shows "ParseDumpName (drop (length (dump_directory config) + 1) (GenerateDumpPath t config))
         = Some \<lparr>filename = drop (length (dump_directory config) + 1) (GenerateDumpPath t config),
                 update_time = t, format_version = dump_format_version config\<rparr>"
  using ParseDumpName_generated[OF assms, of "dump_format_version config"]
  by (simp add: GenerateDumpPath_def wrap64_us[OF assms])

theorem GenerateDumpPath_roundtrip_witness:
  "- 9223372036854775 \<le> (1704164645000000 :: int) \<and> (1704164645000000 :: int) \<le> 9223372036854775 \<and>
   ParseDumpName ''2024-01-02T03:04:05.000000-v3''
   = Some \<lparr>filename = ''2024-01-02T03:04:05.000000-v3'', update_time = 1704164645000000,
           format_version = 3\<rparr>"
  using GenerateDumpPath_roundtrip [of 1704164645000000
      "\<lparr>dump_directory = ''/d'', dump_format_version = 3, max_dump_age = None, max_dump_count = 5\<rparr>"]
  by (simp add: GenerateDumpPath_example)

theorem GenerateDumpPath_year_2300_parses_to_1715:
  "GenerateDumpPath 10413792000000000
     \<lparr>dump_directory = ''/d'', dump_format_version = 3, max_dump_age = None, max_dump_count = 5\<rparr>
   = ''/d/1715-06-13T00:25:26.290448-v3'' \<and>
   ParseDumpName (drop (length ''/d'' + 1)
     (GenerateDumpPath 10413792000000000
        \<lparr>dump_directory = ''/d'', dump_format_version = 3, max_dump_age = None, max_dump_count = 5\<rparr>))
   = Some \<lparr>filename = ''1715-06-13T00:25:26.290448-v3'', update_time = - 8032952073709552,
           format_version = 3\<rparr>"
proof -
  have g: "GenerateDumpPath 10413792000000000
     \<lparr>dump_directory = ''/d'', dump_format_version = 3, max_dump_age = None, max_dump_count = 5\<rparr>
   = ''/d/1715-06-13T00:25:26.290448-v3''"
    by (simp add: GenerateDumpPath_def wrap64_def Timestring_examples dec_3)
  show ?thesis
    unfolding g by (simp add: ParseDumpName_examples)
qed

subsection \<open>Changing the update time of a dump\<close>

text \<open>
  C5, amended. When there is no file at the path of the old update time and the check
  for it does not raise, \<open>BumpDumpTime\<close> returns false and the filesystem is unchanged.
  When the file is there and neither the check nor the rename raises, it returns true.
  Whenever it returns true, the file that was at the old path is at the new path,
  every path but these two keeps its file, and the old path is free if it differs from
  the new one; it does differ when the old update time is below the new one and the
  count of nanoseconds of both is an integer of 64 bits (from
  1677-09-21T00:12:43.145225 to 2262-04-11T23:47:16.854775). With equal update times
  the two paths are one and the file stays there, as the closed theorem after the
  witness shows.
\<close>

theorem BumpDumpTime_renames:
  "(map_of fs (GenerateDumpPath old_update_time config) = None \<and> exists_fault flt (GenerateDumpPath old_update_time config) = None \<longrightarrow>
            BumpDumpTime config flt old_update_time new_update_time fs = (fs, Inr False)) \<and>
         (map_of fs (GenerateDumpPath old_update_time config) \<noteq> None \<and> exists_fault flt (GenerateDumpPath old_update_time config) = None \<and>
          rename_fault flt (GenerateDumpPath old_update_time config) (GenerateDumpPath new_update_time config) = None \<longrightarrow>
            snd (BumpDumpTime config flt old_update_time new_update_time fs) = Inr True) \<and>
         (snd (BumpDumpTime config flt old_update_time new_update_time fs) = Inr True \<longrightarrow>
            (\<exists>f. map_of fs (GenerateDumpPath old_update_time config) = Some f \<and>
                 map_of (fst (BumpDumpTime config flt old_update_time new_update_time fs)) (GenerateDumpPath new_update_time config) = Some f \<and>
                 (GenerateDumpPath old_update_time config \<noteq> GenerateDumpPath new_update_time config \<longrightarrow>
                    map_of (fst (BumpDumpTime config flt old_update_time new_update_time fs)) (GenerateDumpPath old_update_time config) = None) \<and>
                 (\<forall>q. q \<noteq> GenerateDumpPath old_update_time config \<and> q \<noteq> GenerateDumpPath new_update_time config \<longrightarrow>
                    map_of (fst (BumpDumpTime config flt old_update_time new_update_time fs)) q = map_of fs q))) \<and>
         (- 9223372036854775 \<le> old_update_time \<and> old_update_time < new_update_time \<and>
          new_update_time \<le> 9223372036854775 \<longrightarrow> GenerateDumpPath old_update_time config \<noteq> GenerateDumpPath new_update_time config)"
proof -
  define old_name where "old_name = GenerateDumpPath old_update_time config"
  define new_name where "new_name = GenerateDumpPath new_update_time config"
  have inj: "(- 9223372036854775 \<le> old_update_time \<and> old_update_time < new_update_time \<and>
          new_update_time \<le> 9223372036854775 \<longrightarrow> GenerateDumpPath old_update_time config \<noteq> GenerateDumpPath new_update_time config)"
    using GenerateDumpPath_inj[of old_update_time new_update_time config] by auto
  have rest: "(map_of fs (GenerateDumpPath old_update_time config) = None \<and> exists_fault flt (GenerateDumpPath old_update_time config) = None \<longrightarrow>
            BumpDumpTime config flt old_update_time new_update_time fs = (fs, Inr False)) \<and>
         (map_of fs (GenerateDumpPath old_update_time config) \<noteq> None \<and> exists_fault flt (GenerateDumpPath old_update_time config) = None \<and>
          rename_fault flt (GenerateDumpPath old_update_time config) (GenerateDumpPath new_update_time config) = None \<longrightarrow>
            snd (BumpDumpTime config flt old_update_time new_update_time fs) = Inr True) \<and>
         (snd (BumpDumpTime config flt old_update_time new_update_time fs) = Inr True \<longrightarrow>
            (\<exists>f. map_of fs (GenerateDumpPath old_update_time config) = Some f \<and>
                 map_of (fst (BumpDumpTime config flt old_update_time new_update_time fs)) (GenerateDumpPath new_update_time config) = Some f \<and>
                 (GenerateDumpPath old_update_time config \<noteq> GenerateDumpPath new_update_time config \<longrightarrow>
                    map_of (fst (BumpDumpTime config flt old_update_time new_update_time fs)) (GenerateDumpPath old_update_time config) = None) \<and>
                 (\<forall>q. q \<noteq> GenerateDumpPath old_update_time config \<and> q \<noteq> GenerateDumpPath new_update_time config \<longrightarrow>
                    map_of (fst (BumpDumpTime config flt old_update_time new_update_time fs)) q = map_of fs q)))"
    unfolding BumpDumpTime_def Let_def old_name_def[symmetric] new_name_def[symmetric]
    by (auto simp: FileExists_def Rename_def bump_handler_def map_of_move
          split: option.splits sum.splits bool.splits exn.splits)
  from rest inj show ?thesis by blast
qed

theorem BumpDumpTime_renames_witness:
  "- 9223372036854775 \<le> (1704164645000000 :: int) \<and> (1704164645000000 :: int) < 1704164700000000 \<and>
   (1704164700000000 :: int) \<le> 9223372036854775 \<and>
   snd (BumpDumpTime \<lparr>dump_directory = ''/d'', dump_format_version = 3, max_dump_age = None, max_dump_count = 5\<rparr> no_faults 1704164645000000 1704164700000000 [(''/d/2024-01-02T03:04:05.000000-v3'', \<lparr>status = regular_file, data = ''hello'', perms = 384\<rparr>)]) = Inr True \<and>
   GenerateDumpPath 1704164645000000 \<lparr>dump_directory = ''/d'', dump_format_version = 3, max_dump_age = None, max_dump_count = 5\<rparr> \<noteq> GenerateDumpPath 1704164700000000 \<lparr>dump_directory = ''/d'', dump_format_version = 3, max_dump_age = None, max_dump_count = 5\<rparr> \<and>
   map_of (fst (BumpDumpTime \<lparr>dump_directory = ''/d'', dump_format_version = 3, max_dump_age = None, max_dump_count = 5\<rparr> no_faults 1704164645000000 1704164700000000 [(''/d/2024-01-02T03:04:05.000000-v3'', \<lparr>status = regular_file, data = ''hello'', perms = 384\<rparr>)]))
     (GenerateDumpPath 1704164700000000 \<lparr>dump_directory = ''/d'', dump_format_version = 3, max_dump_age = None, max_dump_count = 5\<rparr>) = Some \<lparr>status = regular_file, data = ''hello'', perms = 384\<rparr> \<and>
   map_of (fst (BumpDumpTime \<lparr>dump_directory = ''/d'', dump_format_version = 3, max_dump_age = None, max_dump_count = 5\<rparr> no_faults 1704164645000000 1704164700000000 [(''/d/2024-01-02T03:04:05.000000-v3'', \<lparr>status = regular_file, data = ''hello'', perms = 384\<rparr>)]))
     ''/d/2024-01-02T03:04:05.000000-v3'' = None"
  using BumpDumpTime_renames[of "[(''/d/2024-01-02T03:04:05.000000-v3'', \<lparr>status = regular_file, data = ''hello'', perms = 384\<rparr>)]" 1704164645000000 "\<lparr>dump_directory = ''/d'', dump_format_version = 3, max_dump_age = None, max_dump_count = 5\<rparr>" no_faults 1704164700000000]
  by (simp add: GenerateDumpPath_example no_faults_def)

theorem BumpDumpTime_same_time_keeps_old_path:
  "snd (BumpDumpTime \<lparr>dump_directory = ''/d'', dump_format_version = 3, max_dump_age = None, max_dump_count = 5\<rparr> no_faults 1704164645000000 1704164645000000 [(''/d/2024-01-02T03:04:05.000000-v3'', \<lparr>status = regular_file, data = ''hello'', perms = 384\<rparr>)]) = Inr True \<and>
   map_of (fst (BumpDumpTime \<lparr>dump_directory = ''/d'', dump_format_version = 3, max_dump_age = None, max_dump_count = 5\<rparr> no_faults 1704164645000000 1704164645000000 [(''/d/2024-01-02T03:04:05.000000-v3'', \<lparr>status = regular_file, data = ''hello'', perms = 384\<rparr>)]))
     (GenerateDumpPath 1704164645000000 \<lparr>dump_directory = ''/d'', dump_format_version = 3, max_dump_age = None, max_dump_count = 5\<rparr>) = Some \<lparr>status = regular_file, data = ''hello'', perms = 384\<rparr>"
  by (simp add: BumpDumpTime_def GenerateDumpPath_example FileExists_def Rename_def no_faults_def
        Let_def move_def put_def unlink_def)

subsection \<open>Leading zeros in the version\<close>

text \<open>
  C10. A name whose version has leading zeros parses, for every update time whose count
  of nanoseconds is an integer of 64 bits, to the version that its digits denote;
  \<open>GenerateDumpPath\<close> writes the version without leading zeros. A regular file of
  such a name is a dump of that version for \<open>ReadLatestDump\<close> and \<open>Cleanup\<close>:
  under a configuration of that version, with distinct paths, no failing call and the
  file not older than \<^verbatim>\<open>max_dump_age\<close>, \<open>ReadLatestDump\<close> returns a dump, whose
  update time is not below that of the name; a \<open>Cleanup\<close> that logs no error removes
  the file under a configuration of a greater version; and \<open>Cleanup\<close> leaves it as it is
  under a configuration of a lesser version, when it is not older than
  \<^verbatim>\<open>max_dump_age\<close>. The file \<^verbatim>\<open>2024-01-02T03:04:05.000000-v007\<close> parses to version 7,
  \<open>ReadLatestDump\<close> returns it under a configuration of version 7, and \<open>Cleanup\<close>
  removes it under version 8 and keeps it under version 7.
\<close>

theorem ParseDumpName_accepts_leading_zeros:
  assumes "- 9223372036854775 \<le> t" and "t \<le> 9223372036854775"
  shows "ParseDumpName (Timestring (t * 1000) @ ''-v'' @ replicate k CHR ''0'' @ dec (unat v))
         = Some \<lparr>filename = Timestring (t * 1000) @ ''-v'' @ replicate k CHR ''0'' @ dec (unat (v :: 64 word)),
                 update_time = t, format_version = v\<rparr> \<and>
         GenerateDumpPath t' config
         = FilenameToPath (Timestring (wrap64 (t' * 1000)) @ ''-v'' @ dec (unat (dump_format_version config))) config \<and>
         (hd (dec (unat (dump_format_version config))) = CHR ''0'' \<longrightarrow> dump_format_version config = 0) \<and>
         (dump_format_version config = v \<and>
          (max_dump_age config \<noteq> None \<longrightarrow> MinAcceptableUpdateTime config now \<le> t) \<and>
          distinct (map fst fs) \<and> (FilenameToPath (Timestring (t * 1000) @ ''-v'' @ replicate k CHR ''0'' @ dec (unat v)) config, f) \<in> set fs \<and>
          status f = regular_file \<longrightarrow>
            (\<exists>dump. ReadLatestDump config now no_faults fs = Inr (Some dump) \<and>
                    t \<le> DumpContents.update_time dump)) \<and>
         (v < dump_format_version config \<and> snd (CleanupBlocking config now flt fs) = None \<and>
          (FilenameToPath (Timestring (t * 1000) @ ''-v'' @ replicate k CHR ''0'' @ dec (unat v)) config, f) \<in> set fs \<and> status f = regular_file \<longrightarrow>
            map_of (fst (Cleanup config now flt fs)) (FilenameToPath (Timestring (t * 1000) @ ''-v'' @ replicate k CHR ''0'' @ dec (unat v)) config) = None) \<and>
         (dump_format_version config < v \<and> MinAcceptableUpdateTime config now \<le> t \<longrightarrow>
            map_of (fst (Cleanup config now flt fs)) (FilenameToPath (Timestring (t * 1000) @ ''-v'' @ replicate k CHR ''0'' @ dec (unat v)) config)
            = map_of fs (FilenameToPath (Timestring (t * 1000) @ ''-v'' @ replicate k CHR ''0'' @ dec (unat v)) config)) \<and>
         ParseDumpName ''2024-01-02T03:04:05.000000-v007'' = Some \<lparr>filename = ''2024-01-02T03:04:05.000000-v007'', update_time = 1704164645000000, format_version = 7\<rparr> \<and>
         ReadLatestDump \<lparr>dump_directory = ''/d'', dump_format_version = 7, max_dump_age = None, max_dump_count = 5\<rparr> 0 no_faults [(''/d/2024-01-02T03:04:05.000000-v007'', \<lparr>status = regular_file, data = ''hello'', perms = 384\<rparr>)]
         = Inr (Some \<lparr>contents = ''hello'', update_time = 1704164645000000\<rparr>) \<and>
         fst (Cleanup \<lparr>dump_directory = ''/d'', dump_format_version = 8, max_dump_age = None, max_dump_count = 5\<rparr> 0 no_faults [(''/d/2024-01-02T03:04:05.000000-v007'', \<lparr>status = regular_file, data = ''hello'', perms = 384\<rparr>)]) = [] \<and>
         fst (Cleanup \<lparr>dump_directory = ''/d'', dump_format_version = 7, max_dump_age = None, max_dump_count = 5\<rparr> 0 no_faults [(''/d/2024-01-02T03:04:05.000000-v007'', \<lparr>status = regular_file, data = ''hello'', perms = 384\<rparr>)]) = [(''/d/2024-01-02T03:04:05.000000-v007'', \<lparr>status = regular_file, data = ''hello'', perms = 384\<rparr>)]"
proof -
  define name where "name = Timestring (t * 1000) @ ''-v'' @ replicate k CHR ''0'' @ dec (unat v)"
  define d where "d = \<lparr>filename = name, update_time = t, format_version = v\<rparr>"
  have p: "ParseDumpName name = Some d"
    unfolding name_def d_def using assms by (rule ParseDumpName_zeros)
  have ne: "name \<noteq> []" by (simp add: name_def)
  have ns: "CHR ''/'' \<notin> set name" unfolding name_def by (rule dump_name_no_slash)
  have g: "GenerateDumpPath t' config
         = FilenameToPath (Timestring (wrap64 (t' * 1000)) @ ''-v'' @ dec (unat (dump_format_version config))) config"
    by (rule GenerateDumpPath_name)
  have z: "hd (dec (unat (dump_format_version config))) = CHR ''0'' \<longrightarrow> dump_format_version config = 0"
    using dec_leading_zero[of "unat (dump_format_version config)"] by (simp add: unat_eq_0)
  have rd: "\<exists>dump. ReadLatestDump config now no_faults fs = Inr (Some dump) \<and>
                    t \<le> DumpContents.update_time dump"
    if v: "dump_format_version config = v"
      and a: "max_dump_age config \<noteq> None \<longrightarrow> MinAcceptableUpdateTime config now \<le> t"
      and dist: "distinct (map fst fs)" and mem: "(FilenameToPath name config, f) \<in> set fs"
      and reg: "status f = regular_file"
  proof -
    have m: "(name, f) \<in> set (list_directory (dump_directory config) fs)"
      using mem ne ns by (rule list_directory_intro)
    have c: "candidate config (MinAcceptableUpdateTime config now) (name, f) = Some d"
      using p reg v a by (simp add: candidate_Some d_def)
    from ReadLatestDump_candidate[OF dist m c] show ?thesis by (simp add: d_def)
  qed
  have rmv: "map_of (fst (Cleanup config now flt fs)) (FilenameToPath name config) = None"
    if v: "v < dump_format_version config" and ok: "snd (CleanupBlocking config now flt fs) = None"
      and mem: "(FilenameToPath name config, f) \<in> set fs" and reg: "status f = regular_file"
  proof -
    have m: "(name, f) \<in> set (list_directory (dump_directory config) fs)"
      using mem ne ns by (rule list_directory_intro)
    have dm: "doomed config (MinAcceptableUpdateTime config now) (name, f)"
      using p reg v by (simp add: doomed_def d_def)
    show ?thesis using ok m dm by (rule Cleanup_removes_doomed)
  qed
  have kp: "map_of (fst (Cleanup config now flt fs)) (FilenameToPath name config)
            = map_of fs (FilenameToPath name config)"
    if v: "dump_format_version config < v" and a: "MinAcceptableUpdateTime config now \<le> t"
  proof (rule Cleanup_frame_newer[OF p])
    show "dump_format_version config < format_version d" using v by (simp add: d_def)
    show "\<not> ParsedDumpName.update_time d < MinAcceptableUpdateTime config now"
      using a by (simp add: d_def)
  qed
  have c4: "dump_format_version config = v \<and>
          (max_dump_age config \<noteq> None \<longrightarrow> MinAcceptableUpdateTime config now \<le> t) \<and>
          distinct (map fst fs) \<and> (FilenameToPath name config, f) \<in> set fs \<and>
          status f = regular_file \<longrightarrow>
            (\<exists>dump. ReadLatestDump config now no_faults fs = Inr (Some dump) \<and>
                    t \<le> DumpContents.update_time dump)"
    using rd by blast
  have c5: "v < dump_format_version config \<and> snd (CleanupBlocking config now flt fs) = None \<and>
          (FilenameToPath name config, f) \<in> set fs \<and> status f = regular_file \<longrightarrow>
            map_of (fst (Cleanup config now flt fs)) (FilenameToPath name config) = None"
    using rmv by blast
  have c6: "dump_format_version config < v \<and> MinAcceptableUpdateTime config now \<le> t \<longrightarrow>
            map_of (fst (Cleanup config now flt fs)) (FilenameToPath name config)
            = map_of fs (FilenameToPath name config)"
    using kp by blast
  show ?thesis
    unfolding name_def[symmetric]
    using p[unfolded d_def] g z c4 c5 c6
      ParseDumpName_example_v007 ReadLatestDump_example_v007 Cleanup_example_v007
    by (intro conjI)
qed

theorem ParseDumpName_accepts_leading_zeros_witness:
  "- 9223372036854775 \<le> (1704164645000000 :: int) \<and> (1704164645000000 :: int) \<le> 9223372036854775 \<and>
   ParseDumpName (Timestring (1704164645000000 * 1000) @ ''-v'' @ replicate 2 CHR ''0'' @ dec (unat (7 :: 64 word)))
   = Some \<lparr>filename = ''2024-01-02T03:04:05.000000-v007'', update_time = 1704164645000000, format_version = 7\<rparr> \<and>
   GenerateDumpPath 1704164645000000 \<lparr>dump_directory = ''/d'', dump_format_version = 7, max_dump_age = None, max_dump_count = 5\<rparr> = ''/d/2024-01-02T03:04:05.000000-v7'' \<and>
   (\<exists>dump. ReadLatestDump \<lparr>dump_directory = ''/d'', dump_format_version = 7, max_dump_age = None, max_dump_count = 5\<rparr> 0 no_faults [(''/d/2024-01-02T03:04:05.000000-v007'', \<lparr>status = regular_file, data = ''hello'', perms = 384\<rparr>), (''/d/2024-01-02T03:04:06.000000-v3'', \<lparr>status = regular_file, data = ''hello'', perms = 384\<rparr>)] = Inr (Some dump) \<and>
           1704164645000000 \<le> DumpContents.update_time dump) \<and>
   map_of (fst (Cleanup \<lparr>dump_directory = ''/d'', dump_format_version = 8, max_dump_age = None, max_dump_count = 5\<rparr> 0 no_faults [(''/d/2024-01-02T03:04:05.000000-v007'', \<lparr>status = regular_file, data = ''hello'', perms = 384\<rparr>), (''/d/2024-01-02T03:04:06.000000-v3'', \<lparr>status = regular_file, data = ''hello'', perms = 384\<rparr>)])) ''/d/2024-01-02T03:04:05.000000-v007'' = None \<and>
   map_of (fst (Cleanup \<lparr>dump_directory = ''/d'', dump_format_version = 6, max_dump_age = None, max_dump_count = 5\<rparr> 0 no_faults [(''/d/2024-01-02T03:04:05.000000-v007'', \<lparr>status = regular_file, data = ''hello'', perms = 384\<rparr>), (''/d/2024-01-02T03:04:06.000000-v3'', \<lparr>status = regular_file, data = ''hello'', perms = 384\<rparr>)])) ''/d/2024-01-02T03:04:05.000000-v007'' = Some \<lparr>status = regular_file, data = ''hello'', perms = 384\<rparr>"
proof -
  have n: "Timestring (1704164645000000 * 1000) @ ''-v'' @ replicate 2 CHR ''0'' @ dec (unat (7 :: 64 word))
           = ''2024-01-02T03:04:05.000000-v007''"
    by (simp add: Timestring_example dec_examples replicate_2)
  have lo: "- 9223372036854775 \<le> (1704164645000000 :: int)"
    and hi: "(1704164645000000 :: int) \<le> 9223372036854775" by simp_all
  note T = ParseDumpName_accepts_leading_zeros[OF lo hi, where k = 2 and v = 7 and now = 0
      and fs = "[(''/d/2024-01-02T03:04:05.000000-v007'', \<lparr>status = regular_file, data = ''hello'', perms = 384\<rparr>), (''/d/2024-01-02T03:04:06.000000-v3'', \<lparr>status = regular_file, data = ''hello'', perms = 384\<rparr>)]" and f = "\<lparr>status = regular_file, data = ''hello'', perms = 384\<rparr>" and flt = no_faults, unfolded n]
  have m: "MinAcceptableUpdateTime \<lparr>dump_directory = ''/d'', dump_format_version = 6, max_dump_age = None, max_dump_count = 5\<rparr> 0 = TimePoint_min"
    by (simp add: MinAcceptableUpdateTime_def)
  show ?thesis
    using T[where config = "\<lparr>dump_directory = ''/d'', dump_format_version = 7, max_dump_age = None, max_dump_count = 5\<rparr>" and t' = 1704164645000000]
      T[where config = "\<lparr>dump_directory = ''/d'', dump_format_version = 8, max_dump_age = None, max_dump_count = 5\<rparr>" and t' = 0] T[where config = "\<lparr>dump_directory = ''/d'', dump_format_version = 6, max_dump_age = None, max_dump_count = 5\<rparr>" and t' = 0]
    unfolding n
    by (simp add: FilenameToPath_def wrap64_def Timestring_example dec_examples
          CleanupBlocking_no_faults m TimePoint_min_def)
qed

subsection \<open>Writing a new dump\<close>

text \<open>
  C6. When the path of the new dump is already that of a file, and the check for it
  does not raise, \<open>WriteNewDump\<close> returns false and the filesystem is the one it was
  given.
\<close>

theorem WriteNewDump_existing_unchanged:
  assumes "map_of fs (GenerateDumpPath (DumpContents.update_time dump) config) = Some f"
    and "exists_fault flt (GenerateDumpPath (DumpContents.update_time dump) config) = None"
  shows "WriteNewDump config flt dump fs = (fs, Inr False)"
  using assms by (simp add: WriteNewDump_def FileExists_def)

theorem WriteNewDump_existing_unchanged_witness:
  "map_of [(''/d/2024-01-02T03:04:05.000000-v3'', \<lparr>status = regular_file, data = ''old'', perms = 384\<rparr>)]
     (GenerateDumpPath (DumpContents.update_time \<lparr>contents = ''hello'', update_time = 1704164645000000\<rparr>)
        \<lparr>dump_directory = ''/d'', dump_format_version = 3, max_dump_age = None, max_dump_count = 5\<rparr>)
   = Some \<lparr>status = regular_file, data = ''old'', perms = 384\<rparr> \<and>
   exists_fault no_faults
     (GenerateDumpPath (DumpContents.update_time \<lparr>contents = ''hello'', update_time = 1704164645000000\<rparr>)
        \<lparr>dump_directory = ''/d'', dump_format_version = 3, max_dump_age = None, max_dump_count = 5\<rparr>)
   = None \<and>
   WriteNewDump
     \<lparr>dump_directory = ''/d'', dump_format_version = 3, max_dump_age = None, max_dump_count = 5\<rparr>
     no_faults \<lparr>contents = ''hello'', update_time = 1704164645000000\<rparr>
     [(''/d/2024-01-02T03:04:05.000000-v3'', \<lparr>status = regular_file, data = ''old'', perms = 384\<rparr>)]
   = ([(''/d/2024-01-02T03:04:05.000000-v3'', \<lparr>status = regular_file, data = ''old'', perms = 384\<rparr>)],
      Inr False)"
proof -
  have p: "map_of [(''/d/2024-01-02T03:04:05.000000-v3'', \<lparr>status = regular_file, data = ''old'', perms = 384\<rparr>)]
     (GenerateDumpPath (DumpContents.update_time \<lparr>contents = ''hello'', update_time = 1704164645000000\<rparr>)
        \<lparr>dump_directory = ''/d'', dump_format_version = 3, max_dump_age = None, max_dump_count = 5\<rparr>)
   = Some \<lparr>status = regular_file, data = ''old'', perms = 384\<rparr>"
    by (simp add: GenerateDumpPath_example)
  have q: "exists_fault no_faults
     (GenerateDumpPath (DumpContents.update_time \<lparr>contents = ''hello'', update_time = 1704164645000000\<rparr>)
        \<lparr>dump_directory = ''/d'', dump_format_version = 3, max_dump_age = None, max_dump_count = 5\<rparr>)
   = None"
    by (simp add: no_faults_def)
  show ?thesis
    using p q WriteNewDump_existing_unchanged [OF p q] by simp
qed



text \<open>
  C8. \<open>WriteNewDump\<close> does not turn every failure into its return value: what the
  check for the path raises leaves the function as an exception, with any
  configuration, dump and filesystem.
\<close>

theorem WriteNewDump_exists_raises:
  "WriteNewDump config (no_faults\<lparr>exists_fault := \<lambda>p. Some filesystem_error\<rparr>) dump fs
   = (fs, Inl filesystem_error)"
  by (simp add: WriteNewDump_def FileExists_def)

end
